theory Spec2Isabelle
  imports Main "HOL-Library.AList"
begin

section \<open>The block-timestamp cache of class Pledges\<close>

text \<open>
  \<^verbatim>\<open>getBlockTimestamp\<close> works on two instance fields, both JavaScript objects keyed by the
  block number: \<^verbatim>\<open>blockTimes\<close> (block number to Date) and \<^verbatim>\<open>fetchingBlocks\<close> (block number
  to the array of resolve callbacks waiting for that block). Objects are association lists here:
  \<^verbatim>\<open>o[k] = v\<close> is \<open>AList.update k v\<close> (in place, or appended), \<^verbatim>\<open>delete o[k]\<close> is
  \<open>AList.delete k\<close>, \<^verbatim>\<open>Object.keys(o)\<close> is \<open>map fst\<close>. A Date is its number of milliseconds.

  JavaScript runs each synchronous segment to its end, so the asynchronous method is a state
  machine with two kinds of step: a call of \<^verbatim>\<open>getBlockTimestamp\<close> (up to the point where it
  returns its promise) and the settling of one outstanding \<^verbatim>\<open>web3.eth.getBlock\<close> call
  (the \<^verbatim>\<open>then\<close> handler, or the rejection). A promise handed to a caller is named by a
  number chosen by the caller.
\<close>

type_synonym promise = nat

datatype settlement = Resolved int | Rejected

record pledges_state =
  blockTimes :: "(nat \<times> int) list"
  fetchingBlocks :: "(nat \<times> promise list) list"
  outstanding :: "(nat \<times> promise) list"
    \<comment> \<open>the \<^verbatim>\<open>getBlock\<close> calls not yet settled, each with the promise returned for it\<close>
  settled :: "(nat \<times> promise \<times> settlement) list"
    \<comment> \<open>the promises settled so far: block number, promise, outcome\<close>

definition init_state :: pledges_state where
  "init_state = \<lparr>blockTimes = [], fetchingBlocks = [], outstanding = [], settled = []\<rparr>"

text \<open>
  \<^verbatim>\<open>Object.keys(this.blockTimes).sort((a, b) => b - a).forEach(key => delete this.blockTimes[key])\<close>:
  the keys in descending numeric order, each of them deleted.
\<close>

definition delete_sorted_keys :: "(nat \<times> int) list \<Rightarrow> (nat \<times> int) list" where
  "delete_sorted_keys bt = fold AList.delete (rev (sort (map fst bt))) bt"

text \<open>The body of the \<^verbatim>\<open>then\<close> handler up to the eviction: insert, then "only keep 50".\<close>

definition cache_insert :: "nat \<Rightarrow> int \<Rightarrow> (nat \<times> int) list \<Rightarrow> (nat \<times> int) list" where
  "cache_insert blockNumber ts bt =
     (let bt1 = AList.update blockNumber ts bt
      in if length (map fst bt1) > 50 then delete_sorted_keys bt1 else bt1)"

text \<open>
  The synchronous part of \<^verbatim>\<open>getBlockTimestamp(blockNumber)\<close>; \<open>p\<close> names the promise it
  returns. A cached Date and an array (even an empty one) are truthy.
\<close>

definition getBlockTimestamp :: "promise \<Rightarrow> nat \<Rightarrow> pledges_state \<Rightarrow> pledges_state" where
  "getBlockTimestamp p blockNumber s =
     (case map_of (blockTimes s) blockNumber of
        Some ts \<Rightarrow> s\<lparr>settled := settled s @ [(blockNumber, p, Resolved ts)]\<rparr>
      | None \<Rightarrow>
          (case map_of (fetchingBlocks s) blockNumber of
             Some listeners \<Rightarrow>
               s\<lparr>fetchingBlocks := AList.update blockNumber (listeners @ [p]) (fetchingBlocks s)\<rparr>
           | None \<Rightarrow>
               s\<lparr>fetchingBlocks := AList.update blockNumber [] (fetchingBlocks s),
                 outstanding := outstanding s @ [(blockNumber, p)]\<rparr>))"

text \<open>
  What \<^verbatim>\<open>web3.eth.getBlock\<close> can deliver: a block with its timestamp in seconds,
  \<^verbatim>\<open>null\<close> (then \<^verbatim>\<open>block.timestamp\<close> throws inside the handler), or a rejection.
\<close>

datatype block_result = Block int | NullBlock | GetBlockRejected

text \<open>
  The \<^verbatim>\<open>then\<close> handler of the fetch for \<open>blockNumber\<close>, whose promise is \<open>p\<close>. Should the
  listener array be missing, \<^verbatim>\<open>forEach\<close> throws after the cache was written.
\<close>

definition getBlock_then :: "nat \<Rightarrow> promise \<Rightarrow> int \<Rightarrow> pledges_state \<Rightarrow> pledges_state" where
  "getBlock_then blockNumber p timestamp s =
     (let ts = timestamp * 1000;
          bt = cache_insert blockNumber ts (blockTimes s);
          rest = remove1 (blockNumber, p) (outstanding s)
      in case map_of (fetchingBlocks s) blockNumber of
           None \<Rightarrow>
             s\<lparr>blockTimes := bt, outstanding := rest,
               settled := settled s @ [(blockNumber, p, Rejected)]\<rparr>
         | Some listeners \<Rightarrow>
             s\<lparr>blockTimes := bt,
               fetchingBlocks := AList.delete blockNumber (fetchingBlocks s),
               outstanding := rest,
               settled := settled s
                  @ map (\<lambda>l. (blockNumber, l, Resolved ts)) listeners
                  @ [(blockNumber, p, Resolved ts)]\<rparr>)"

text \<open>A failed fetch: nothing but the returned promise's rejection happens.\<close>

definition getBlock_failed :: "nat \<Rightarrow> promise \<Rightarrow> pledges_state \<Rightarrow> pledges_state" where
  "getBlock_failed blockNumber p s =
     s\<lparr>outstanding := remove1 (blockNumber, p) (outstanding s),
       settled := settled s @ [(blockNumber, p, Rejected)]\<rparr>"

datatype event = Call promise nat | Settle nat block_result

fun settles :: "nat \<Rightarrow> event \<Rightarrow> bool" where
  "settles b (Settle b' r) = (b' = b)"
| "settles b (Call p b') = False"

text \<open>A fetch can only settle while it is outstanding; otherwise the event cannot happen.\<close>

fun step :: "event \<Rightarrow> pledges_state \<Rightarrow> pledges_state option" where
  "step (Call p blockNumber) s = Some (getBlockTimestamp p blockNumber s)"
| "step (Settle blockNumber r) s =
     (case map_of (outstanding s) blockNumber of
        None \<Rightarrow> None
      | Some p \<Rightarrow>
          (case r of
             Block timestamp \<Rightarrow> Some (getBlock_then blockNumber p timestamp s)
           | NullBlock \<Rightarrow> Some (getBlock_failed blockNumber p s)
           | GetBlockRejected \<Rightarrow> Some (getBlock_failed blockNumber p s)))"

fun run :: "event list \<Rightarrow> pledges_state \<Rightarrow> pledges_state option" where
  "run [] s = Some s"
| "run (e # es) s = (case step e s of None \<Rightarrow> None | Some s' \<Rightarrow> run es s')"

text \<open>
  The invariant of the state machine: at most one outstanding fetch per block number, every
  outstanding fetch has its in-flight marker, and a block number with a marker is not cached.
\<close>

definition cache_inv :: "pledges_state \<Rightarrow> bool" where
  "cache_inv s \<longleftrightarrow>
     distinct (map fst (outstanding s)) \<and>
     fst ` set (outstanding s) \<subseteq> fst ` set (fetchingBlocks s) \<and>
     fst ` set (fetchingBlocks s) \<inter> fst ` set (blockTimes s) = {}"

text \<open>A block number whose fetch is gone while its in-flight marker is still there.\<close>

definition stuck :: "nat \<Rightarrow> pledges_state \<Rightarrow> bool" where
  "stuck b s \<longleftrightarrow> b \<in> fst ` set (fetchingBlocks s) \<and> b \<notin> fst ` set (outstanding s)"


text \<open>Concrete states, used to evaluate the state machine.\<close>

definition two_calls_state :: pledges_state where
  "two_calls_state =
     \<lparr>blockTimes = [], fetchingBlocks = [(7, [2])], outstanding = [(7, 1)], settled = []\<rparr>"

definition one_call_state :: pledges_state where
  "one_call_state =
     \<lparr>blockTimes = [], fetchingBlocks = [(7, [])], outstanding = [(7, 1)], settled = []\<rparr>"

definition failed_state :: pledges_state where
  "failed_state =
     \<lparr>blockTimes = [], fetchingBlocks = [(7, [])], outstanding = [],
      settled = [(7, 1, Rejected)]\<rparr>"

definition waiting_state :: pledges_state where
  "waiting_state =
     \<lparr>blockTimes = [], fetchingBlocks = [(7, [2])], outstanding = [],
      settled = [(7, 1, Rejected)]\<rparr>"

definition three_calls_state :: pledges_state where
  "three_calls_state =
     \<lparr>blockTimes = [], fetchingBlocks = [(7, [2]), (8, [])], outstanding = [(7, 1), (8, 3)],
      settled = []\<rparr>"

text \<open>A cache that holds the blocks 1 to 50.\<close>

definition full_cache :: "(nat \<times> int) list" where
  "full_cache = map (\<lambda>n. (n, 1000 * int n)) [1..<51]"


section \<open>JavaScript values and objects\<close>

text \<open>
  Donations, mutations and history entries are plain JavaScript objects whose fields come and
  go (\<^verbatim>\<open>Object.assign\<close>, \<^verbatim>\<open>delete\<close>, the \<^verbatim>\<open>$unset\<close> directive), so they are association
  lists from field names to values, in insertion order. A missing field reads as
  \<^verbatim>\<open>undefined\<close>.
\<close>

datatype jsval =
    JUndefined
  | JBool bool
  | JNum int
  | JStr string
  | JDate int
  | JObj "(string \<times> jsval) list"

type_synonym obj = "(string \<times> jsval) list"

definition jsget :: "obj \<Rightarrow> string \<Rightarrow> jsval" where
  "jsget ob k = (case map_of ob k of None \<Rightarrow> JUndefined | Some v \<Rightarrow> v)"

fun truthy :: "jsval \<Rightarrow> bool" where
  "truthy JUndefined = False"
| "truthy (JBool b) = b"
| "truthy (JNum n) = (n \<noteq> 0)"
| "truthy (JStr s) = (s \<noteq> [])"
| "truthy (JDate t) = True"
| "truthy (JObj ob) = True"

text \<open>\<^verbatim>\<open>Object.assign(target, source)\<close>: every field of the source is written to the target.\<close>

definition assign :: "obj \<Rightarrow> obj \<Rightarrow> obj" where
  "assign target source = fold (\<lambda>(k, v). AList.update k v) source target"

text \<open>
  Amounts are decimal strings of arbitrary size. \<^verbatim>\<open>toBN\<close> (web3-utils) reads a string as a
  big number and throws on a string that is no number (\<open>None\<close>); \<^verbatim>\<open>toString\<close> of a big number
  prints it in decimal. Hexadecimal spellings (\<^verbatim>\<open>0x..\<close>), which the chain reader does not
  produce, are not modelled and count as no number.
\<close>

definition is_digit :: "char \<Rightarrow> bool" where
  "is_digit c \<longleftrightarrow> 48 \<le> (of_char c :: nat) \<and> (of_char c :: nat) \<le> 57"

definition decimal :: "string \<Rightarrow> nat option" where
  "decimal s =
     (if s \<noteq> [] \<and> list_all is_digit s
      then Some (foldl (\<lambda>a c. 10 * a + (of_char c - 48)) 0 s)
      else None)"

definition toBN :: "string \<Rightarrow> int option" where
  "toBN s =
     (if s \<noteq> [] \<and> hd s = CHR ''-''
      then map_option (\<lambda>n. - int n) (decimal (tl s))
      else map_option int (decimal s))"

fun digits :: "nat \<Rightarrow> string" where
  "digits n =
     (if n < 10 then [char_of (48 + n)]
      else digits (n div 10) @ [char_of (48 + n mod 10)])"

definition bn_toString :: "int \<Rightarrow> string" where
  "bn_toString i = (if i < 0 then CHR ''-'' # digits (nat (- i)) else digits (nat i))"


text \<open>
  JavaScript's conversion of a string to a number, for the comparisons \<^verbatim>\<open>> 0\<close> and the
  product \<^verbatim>\<open>* 1000\<close> on fields of a pledge: the empty string is 0, a decimal numeral is its
  value, and \<open>None\<close> is NaN.
\<close>

definition toNumber :: "string \<Rightarrow> int option" where
  "toNumber s = (if s = [] then Some 0 else toBN s)"

definition gt0 :: "string \<Rightarrow> bool" where
  "gt0 s = (case toNumber s of None \<Rightarrow> False | Some n \<Rightarrow> n > 0)"


section \<open>Pledges, pledge admins, events and the collaborators\<close>

text \<open>
  A pledge as \<^verbatim>\<open>liquidPledging.getPledge\<close> returns it (web3 delivers the unsigned integers
  of the contract as decimal strings, and the code compares them with \<^verbatim>\<open>'0'\<close>, \<^verbatim>\<open>'1'\<close>,
  \<^verbatim>\<open>'2'\<close>), a pledge admin as the \<^verbatim>\<open>pledgeAdmins\<close> service returns it (fields \<^verbatim>\<open>id\<close>,
  \<^verbatim>\<open>type\<close>, \<^verbatim>\<open>typeId\<close>, \<^verbatim>\<open>admin\<close>), and a Transfer event with its \<^verbatim>\<open>returnValues\<close>.
\<close>

record pledge =
  owner :: string
  pledgeState :: string
  nDelegates :: string
  intendedProject :: string
  commitTime :: string
  oldPledge :: string

record pledgeAdmin =
  adminId :: jsval
  adminType :: string
  typeId :: jsval
  admin :: obj

record transferEvent =
  event :: string
  rv_from :: string
  rv_to :: string
  rv_amount :: string
  transactionHash :: string
  blockNumber :: nat

text \<open>
  Errors are values: the \<^verbatim>\<open>ReProcessEvent\<close> of the source, the \<^verbatim>\<open>Error\<close> of \<^verbatim>\<open>transfer\<close> on
  a foreign event, the \<^verbatim>\<open>Error\<close> "unable to determine what donations entity to update" with
  the context it prints (from, to, amount, ts, txHash, donations), a \<^verbatim>\<open>TypeError\<close> of the
  runtime, and the rejection of a collaborator's promise.
\<close>

datatype error =
    ReProcessEvent
  | NotTransferEvent
  | UnableToDetermine string string string int string "obj list"
  | TypeError string
  | Rejection string

text \<open>
  What a method does to its collaborators is the list of calls it makes, in order:
  \<^verbatim>\<open>donations.create\<close>, \<^verbatim>\<open>donations.patch\<close>, \<^verbatim>\<open>milestones.patch\<close>,
  \<^verbatim>\<open>donations/history.create\<close>, \<^verbatim>\<open>logger.error\<close>, \<^verbatim>\<open>console.log\<close>,
  \<^verbatim>\<open>setTimeout(() => processEvent(retry), delay)\<close>, \<^verbatim>\<open>queue.add\<close> and \<^verbatim>\<open>queue.purge\<close>.
\<close>

datatype call =
    DonationsCreate obj
  | DonationsPatch jsval obj
  | MilestonesPatch jsval obj
  | HistoryCreate obj
  | LoggerError error
  | ConsoleLog jsval string
  | SetTimeout nat bool
  | QueueAdd string
  | QueuePurge string

fun donations_call :: "call \<Rightarrow> bool" where
  "donations_call (DonationsCreate d) = True"
| "donations_call (DonationsPatch i m) = True"
| "donations_call c = False"

text \<open>
  What the collaborators answer: the chain reader and the admin service may reject
  (\<open>None\<close>), the donation store holds a list of donations and names the id it gives the next
  created donation. \<open>arrival\<close> is the order in time in which the five lookups that
  \<^verbatim>\<open>_transfer\<close> awaits together are answered.
\<close>

record world =
  getPledge :: "string \<Rightarrow> pledge option"
  getPledgeDelegate :: "string \<Rightarrow> string \<Rightarrow> string option"
  pledgeAdmins :: "string \<Rightarrow> pledgeAdmin option"
  donations :: "obj list"
  createdId :: jsval
  arrival :: "nat list"

definition orReject :: "string \<Rightarrow> 'a option \<Rightarrow> error + 'a" where
  "orReject name r = (case r of None \<Rightarrow> Inl (Rejection name) | Some v \<Rightarrow> Inr v)"

definition andThen :: "error + 'a \<Rightarrow> ('a \<Rightarrow> error + 'b) \<Rightarrow> error + 'b" where
  "andThen r f = (case r of Inl e \<Rightarrow> Inl e | Inr v \<Rightarrow> f v)"

text \<open>\<^verbatim>\<open>donations.find({ query: { k: v } })\<close>: the stored donations whose field \<open>k\<close> is \<open>v\<close>.\<close>

definition donations_find :: "world \<Rightarrow> string \<Rightarrow> string \<Rightarrow> obj list" where
  "donations_find w k v = filter (\<lambda>d. jsget d k = JStr v) (donations w)"


section \<open>The methods of class Pledges\<close>

definition getDonationStatus :: "pledge \<Rightarrow> pledgeAdmin \<Rightarrow> bool \<Rightarrow> bool \<Rightarrow> string" where
  "getDonationStatus pledge pledgeAdmin hasIntendedProject hasDelegate =
     (if pledgeState pledge = ''1'' then ''paying''
      else if pledgeState pledge = ''2'' then ''paid''
      else if hasIntendedProject then ''to_approve''
      else if adminType pledgeAdmin = ''giver'' \<or> hasDelegate then ''waiting''
      else ''committed'')"

text \<open>
  \<^verbatim>\<open>newDonation(pledgeId, amount, txHash, retry)\<close>. The helper \<^verbatim>\<open>pledgeState\<close> of
  \<^verbatim>\<open>./helpers\<close> is not among the sources; every method that calls it takes it as the
  parameter \<open>pledgeStateHelper\<close>.
\<close>

definition newDonation ::
  "(string \<Rightarrow> jsval) \<Rightarrow> world \<Rightarrow> string \<Rightarrow> string \<Rightarrow> string \<Rightarrow> bool \<Rightarrow> error + call list" where
  "newDonation pledgeStateHelper w pledgeId amount txHash retry =
     andThen (orReject ''getPledge'' (getPledge w pledgeId)) (\<lambda>pledge.
     andThen (orReject ''pledgeAdmins.get'' (pledgeAdmins w (owner pledge))) (\<lambda>giver.
       let mutation =
             [(''giverAddress'', jsget (admin giver) ''address''),
              (''amount'', JStr amount),
              (''pledgeId'', JStr pledgeId),
              (''owner'', JStr (owner pledge)),
              (''ownerId'', typeId giver),
              (''ownerType'', JStr (adminType giver)),
              (''status'', JStr ''waiting''),
              (''paymentStatus'', pledgeStateHelper (pledgeState pledge))]
       in case donations_find w ''txHash'' txHash of
            [] \<Rightarrow>
              if retry
              then Inr [DonationsCreate (assign mutation [(''txHash'', JStr txHash)])]
              else Inl ReProcessEvent
          | donation # _ \<Rightarrow> Inr [DonationsPatch (jsget donation ''_id'') mutation]))"

text \<open>
  The \<^verbatim>\<open>then\<close> handler of \<^verbatim>\<open>getDonation\<close> inside \<^verbatim>\<open>_transfer\<close>, on the \<^verbatim>\<open>data\<close> the store
  found for the source pledge. Before it throws, the handler logs \<^verbatim>\<open>donations.data[0].amount\<close>,
  which is itself a TypeError when nothing was found.
\<close>

definition getDonation ::
  "obj list \<Rightarrow> string \<Rightarrow> string \<Rightarrow> string \<Rightarrow> int \<Rightarrow> string \<Rightarrow> call list \<times> (error + obj)" where
  "getDonation data from to amount ts txHash =
     (if length data = 1 then ([], Inr (data ! 0))
      else
        let filteredDonationsByTxHash = filter (\<lambda>donation. jsget donation ''txHash'' = JStr txHash) data
        in if length filteredDonationsByTxHash = 1 then ([], Inr (filteredDonationsByTxHash ! 0))
           else
             let filteredDonationsByAmount =
                   filter (\<lambda>donation. jsget donation ''amount'' = JStr amount) data
             in if length filteredDonationsByAmount > 0
                then ([], Inr (filteredDonationsByAmount ! 0))
                else (case data of
                        [] \<Rightarrow> ([], Inl (TypeError ''Cannot read property amount of undefined''))
                      | d # _ \<Rightarrow>
                          ([ConsoleLog (jsget d ''amount'') amount],
                           Inl (UnableToDetermine from to amount ts txHash data))))"

text \<open>The \<^verbatim>\<open>transferInfo\<close> object handed from \<^verbatim>\<open>_transfer\<close> to \<^verbatim>\<open>_doTransfer\<close>.\<close>

record transferInfo =
  ti_fromPledgeAdmin :: pledgeAdmin
  ti_toPledgeAdmin :: pledgeAdmin
  ti_fromPledge :: pledge
  ti_toPledge :: pledge
  ti_toPledgeId :: string
  ti_delegate :: "pledgeAdmin option"
  ti_intendedProject :: "pledgeAdmin option"
  ti_donation :: obj
  ti_amount :: string
  ti_ts :: int
  ti_toDonation :: "obj option"

text \<open>
  \<^verbatim>\<open>createDonationMutation(transferInfo)\<close> returns the mutation and, as its side effect, may
  patch the milestone. Each \<^verbatim>\<open>Object.assign(mutation, { $unset: ... })\<close> replaces the whole
  \<^verbatim>\<open>$unset\<close> field.
\<close>

definition createDonationMutation ::
  "(string \<Rightarrow> jsval) \<Rightarrow> transferInfo \<Rightarrow> obj \<times> call list" where
  "createDonationMutation pledgeStateHelper ti =
     (let status = getDonationStatus (ti_toPledge ti) (ti_toPledgeAdmin ti)
                     (ti_intendedProject ti \<noteq> None) (ti_delegate ti \<noteq> None);
          mutation0 =
            [(''amount'', JStr (ti_amount ti)),
             (''paymentStatus'', pledgeStateHelper (pledgeState (ti_toPledge ti))),
             (''owner'', JStr (owner (ti_toPledge ti))),
             (''ownerId'', typeId (ti_toPledgeAdmin ti)),
             (''ownerType'', JStr (adminType (ti_toPledgeAdmin ti))),
             (''intendedProject'', JStr (intendedProject (ti_toPledge ti))),
             (''pledgeId'', JStr (ti_toPledgeId ti)),
             (''commitTime'',
                (case toNumber (commitTime (ti_toPledge ti)) of
                   None \<Rightarrow> JDate (ti_ts ti)
                 | Some n \<Rightarrow> if n > 0 then JDate (n * 1000) else JDate (ti_ts ti))),
             (''status'', JStr status)];
          mutation1 =
            (case ti_intendedProject ti of
               None \<Rightarrow> mutation0
             | Some ip \<Rightarrow>
                 assign mutation0
                   [(''intendedProjectId'', typeId ip),
                    (''intendedProjectType'', JStr (adminType ip))]);
          mutation2 =
            (if ti_intendedProject ti = None \<and> truthy (jsget (ti_donation ti) ''intendedProject'')
             then assign (AList.delete ''intendedProject'' mutation1)
                    [(''$unset'', JObj [(''intendedProject'', JBool True),
                                        (''intendedProjectId'', JBool True),
                                        (''intendedProjectType'', JBool True)])]
             else mutation1);
          mutation3 =
            (case ti_delegate ti of
               None \<Rightarrow> mutation2
             | Some d \<Rightarrow>
                 assign mutation2 [(''delegate'', adminId d), (''delegateId'', typeId d)]);
          mutation4 =
            (if (ti_delegate ti = None \<or> pledgeState (ti_toPledge ti) = ''1'')
                \<and> truthy (jsget (ti_donation ti) ''delegate'')
             then assign mutation3
                    [(''$unset'', JObj [(''delegate'', JBool True),
                                        (''delegateId'', JBool True),
                                        (''delegateType'', JBool True)])]
             else mutation3);
          milestone =
            (if pledgeState (ti_toPledge ti) \<in> set [''1'', ''2'']
                \<and> adminType (ti_toPledgeAdmin ti) = ''milestone''
             then [MilestonesPatch (typeId (ti_toPledgeAdmin ti))
                     [(''status'', JStr (if pledgeState (ti_toPledge ti) = ''1''
                                          then ''Paying'' else ''Paid'')),
                      (''mined'', JBool True)]]
             else [])
      in (mutation4, milestone))"

definition trackDonationHistory :: "transferInfo \<Rightarrow> call list" where
  "trackDonationHistory ti =
     (let isNewDonation =
            (ti_toDonation ti = None \<and> oldPledge (ti_fromPledge ti) = ''0''
             \<and> (adminType (ti_toPledgeAdmin ti) \<noteq> ''giver'' \<or> nDelegates (ti_toPledge ti) = ''1'')
             \<and> intendedProject (ti_toPledge ti) = ''0'');
          isCommittedDelegation =
            (ti_toDonation ti = None \<and> intendedProject (ti_fromPledge ti) \<noteq> ''0''
             \<and> intendedProject (ti_fromPledge ti) = owner (ti_toPledge ti));
          isCampaignToMilestone =
            (ti_toDonation ti = None \<and> adminType (ti_fromPledgeAdmin ti) = ''campaign''
             \<and> adminType (ti_toPledgeAdmin ti) = ''milestone'');
          history0 =
            [(''ownerId'', typeId (ti_toPledgeAdmin ti)),
             (''ownerType'', JStr (adminType (ti_toPledgeAdmin ti))),
             (''amount'', JStr (ti_amount ti)),
             (''txHash'', jsget (ti_donation ti) ''txHash''),
             (''donationId'', jsget (ti_donation ti) ''_id''),
             (''giverAddress'', jsget (ti_donation ti) ''giverAddress'')];
          history =
            (case ti_delegate ti of
               None \<Rightarrow> history0
             | Some d \<Rightarrow>
                 assign history0
                   [(''delegateType'', JStr (adminType d)), (''delegateId'', typeId d)])
      in if pledgeState (ti_toPledge ti) = ''0''
            \<and> (isNewDonation \<or> isCommittedDelegation \<or> isCampaignToMilestone)
         then [HistoryCreate history]
         else
           (case ti_toDonation ti of
              Some created \<Rightarrow>
                if pledgeState (ti_toPledge ti) = ''0''
                then [HistoryCreate
                        (assign history
                           [(''donationId'', jsget created ''_id''),
                            (''fromDonationId'', jsget (ti_donation ti) ''_id''),
                            (''fromOwnerId'', typeId (ti_fromPledgeAdmin ti)),
                            (''fromOwnerType'', JStr (adminType (ti_fromPledgeAdmin ti)))])]
                else []
            | None \<Rightarrow> []))"

text \<open>
  \<^verbatim>\<open>updateDonation\<close> of \<^verbatim>\<open>_doTransfer\<close>: the patch of the original donation on a split.
\<close>

definition updateDonation :: "transferInfo \<Rightarrow> error + call" where
  "updateDonation ti =
     (case (case jsget (ti_donation ti) ''amount'' of
              JStr s \<Rightarrow> toBN s
            | JNum n \<Rightarrow> Some n
            | _ \<Rightarrow> None) of
        None \<Rightarrow> Inl (TypeError ''toBN'')
      | Some x \<Rightarrow>
          (case toBN (ti_amount ti) of
             None \<Rightarrow> Inl (TypeError ''toBN'')
           | Some y \<Rightarrow>
               let a = bn_toString (x - y);
                   status =
                     (if ti_amount ti = ''0'' then ''paid''
                      else getDonationStatus (ti_fromPledge ti) (ti_fromPledgeAdmin ti)
                             (truthy (jsget (ti_donation ti) ''intendedProject'')
                              \<and> jsget (ti_donation ti) ''intendedProject'' \<noteq> JStr ''0'')
                             (truthy (jsget (ti_donation ti) ''delegate'')))
               in Inr (DonationsPatch (jsget (ti_donation ti) ''_id'')
                         [(''status'', JStr status), (''amount'', JStr a)])))"

text \<open>
  \<^verbatim>\<open>_doTransfer(transferInfo)\<close> (an Isabelle name cannot start with an underscore): the calls
  made and the error, if any, it ends with. \<open>newId\<close> is the id the store gives the created
  donation.
\<close>

definition u_doTransfer ::
  "(string \<Rightarrow> jsval) \<Rightarrow> jsval \<Rightarrow> transferInfo \<Rightarrow> call list \<times> error option" where
  "u_doTransfer pledgeStateHelper newId ti =
     (if jsget (ti_donation ti) ''amount'' = JStr (ti_amount ti)
      then
        (let (mutation, milestone) = createDonationMutation pledgeStateHelper ti
         in (milestone @ [DonationsPatch (jsget (ti_donation ti) ''_id'') mutation]
               @ trackDonationHistory ti, None))
      else
        (let (mutation, milestone) = createDonationMutation pledgeStateHelper ti;
             newDonationObject =
               fold AList.delete
                 [''_id'', ''giver'', ''ownerEntity'', ''requiredConfirmations'', ''confirmations'']
                 (assign (assign [] (ti_donation ti)) mutation)
         in case updateDonation ti of
              Inl e \<Rightarrow> (milestone, Some e)
            | Inr patch \<Rightarrow>
                (milestone @ [patch, DonationsCreate newDonationObject]
                   @ trackDonationHistory
                       (ti\<lparr>ti_toDonation :=
                             Some (AList.update ''_id'' newId newDonationObject)\<rparr>),
                 None)))"

text \<open>
  \<^verbatim>\<open>_transfer(from, to, amount, ts, txHash)\<close>. It first awaits both pledges (either
  rejection is the same \<^verbatim>\<open>getPledge\<close> rejection here), then the five lookups of its
  \<^verbatim>\<open>promises\<close> array together: the admin of the source pledge (0), the admin of the
  destination pledge (1), \<^verbatim>\<open>getDonation()\<close> (2), the last delegate (3) and the intended
  project (4). All five are started; \<^verbatim>\<open>Promise.all\<close> rejects with the rejection that comes
  first in time, and the final \<^verbatim>\<open>catch(logger.error)\<close> logs that one, so \<^verbatim>\<open>_transfer\<close>
  itself always resolves. The donation that \<^verbatim>\<open>getDonation\<close> resolves with is always an
  element of the found data, so the branch \<^verbatim>\<open>if (!donation)\<close> is never taken.
\<close>

definition fetchDelegate :: "world \<Rightarrow> string \<Rightarrow> pledge \<Rightarrow> error + pledgeAdmin option" where
  "fetchDelegate w to pledge =
     (if gt0 (nDelegates pledge)
      then andThen (orReject ''getPledgeDelegate'' (getPledgeDelegate w to (nDelegates pledge)))
             (\<lambda>idDelegate.
                andThen (orReject ''pledgeAdmins.get'' (pledgeAdmins w idDelegate))
                  (\<lambda>d. Inr (Some d)))
      else Inr None)"

definition fetchIntendedProject :: "world \<Rightarrow> pledge \<Rightarrow> error + pledgeAdmin option" where
  "fetchIntendedProject w pledge =
     (if gt0 (intendedProject pledge)
      then andThen (orReject ''pledgeAdmins.get'' (pledgeAdmins w (intendedProject pledge)))
             (\<lambda>ip. Inr (Some ip))
      else Inr None)"

definition rejection :: "error + 'a \<Rightarrow> error option" where
  "rejection r = (case r of Inl e \<Rightarrow> Some e | Inr v \<Rightarrow> None)"

text \<open>
  The order in which the five lookups settle: the positions named by the collaborators'
  \<open>arrival\<close>, each once, then the remaining ones in the order of the array.
\<close>

definition arrival_order :: "nat list \<Rightarrow> nat list" where
  "arrival_order order =
     (let named = rev (remdups (rev (filter (\<lambda>i. i < 5) order)))
      in named @ filter (\<lambda>i. i \<notin> set named) [0..<5])"

text \<open>
  The lookups settle one after the other. A lookup makes its own calls when it settles; the
  first rejection is logged, a later one is dropped (\<^verbatim>\<open>Promise.all\<close> is rejected already).
\<close>

fun settle_all :: "nat list \<Rightarrow> (call list \<times> error option) list \<Rightarrow> bool \<Rightarrow> call list" where
  "settle_all [] lookups rejected = []"
| "settle_all (i # rest) lookups rejected =
     (case lookups ! i of
        (logged, None) \<Rightarrow> logged @ settle_all rest lookups rejected
      | (logged, Some e) \<Rightarrow>
          logged @ (if rejected then [] else [LoggerError e]) @ settle_all rest lookups True)"

definition u_transfer ::
  "(string \<Rightarrow> jsval) \<Rightarrow> world \<Rightarrow> string \<Rightarrow> string \<Rightarrow> string \<Rightarrow> int \<Rightarrow> string \<Rightarrow> call list" where
  "u_transfer pledgeStateHelper w from to amount ts txHash =
     (case andThen (orReject ''getPledge'' (getPledge w from)) (\<lambda>fromPledge.
           andThen (orReject ''getPledge'' (getPledge w to)) (\<lambda>toPledge.
             Inr (fromPledge, toPledge))) of
        Inl e \<Rightarrow> [LoggerError e]
      | Inr (fromPledge, toPledge) \<Rightarrow>
          (let (logged, found) =
                 getDonation (donations_find w ''pledgeId'' from) from to amount ts txHash;
               fromAdminLookup = orReject ''pledgeAdmins.get'' (pledgeAdmins w (owner fromPledge));
               toAdminLookup = orReject ''pledgeAdmins.get'' (pledgeAdmins w (owner toPledge));
               delegateLookup = fetchDelegate w to toPledge;
               projectLookup = fetchIntendedProject w toPledge;
               settling =
                 settle_all (arrival_order (arrival w))
                   [([], rejection fromAdminLookup), ([], rejection toAdminLookup),
                    (logged, rejection found), ([], rejection delegateLookup),
                    ([], rejection projectLookup)] False
           in case andThen fromAdminLookup (\<lambda>fromPledgeAdmin.
                   andThen toAdminLookup (\<lambda>toPledgeAdmin.
                   andThen found (\<lambda>donation.
                   andThen delegateLookup (\<lambda>delegate.
                   andThen projectLookup (\<lambda>intendedProject.
                     Inr \<lparr>ti_fromPledgeAdmin = fromPledgeAdmin,
                          ti_toPledgeAdmin = toPledgeAdmin,
                          ti_fromPledge = fromPledge, ti_toPledge = toPledge,
                          ti_toPledgeId = to, ti_delegate = delegate,
                          ti_intendedProject = intendedProject, ti_donation = donation,
                          ti_amount = amount, ti_ts = ts, ti_toDonation = None\<rparr>))))) of
                Inl e \<Rightarrow> settling
              | Inr ti \<Rightarrow>
                  (case u_doTransfer pledgeStateHelper (createdId w) ti of
                     (calls, None) \<Rightarrow> settling @ calls
                   | (calls, Some e) \<Rightarrow> settling @ calls @ [LoggerError e])))"

text \<open>
  \<^verbatim>\<open>processEvent(retry)\<close>, the task \<^verbatim>\<open>transfer\<close> queues under the transaction hash. The
  promise of \<^verbatim>\<open>getBlockTimestamp\<close> it awaits first is resolved, rejected or never settled
  (\<open>None\<close>). \<^verbatim>\<open>errWrapper\<close> (\<^verbatim>\<open>../utils/to\<close>, not among the sources) hands the rejection of
  \<^verbatim>\<open>newDonation\<close> back as \<^verbatim>\<open>err\<close>.
\<close>

datatype completion = Finished | Failed error | NeverSettles

definition processEvent ::
  "(string \<Rightarrow> jsval) \<Rightarrow> world \<Rightarrow> transferEvent \<Rightarrow> settlement option \<Rightarrow> bool
     \<Rightarrow> call list \<times> completion" where
  "processEvent pledgeStateHelper w ev tsPromise retry =
     (case tsPromise of
        None \<Rightarrow> ([], NeverSettles)
      | Some Rejected \<Rightarrow> ([], Failed (Rejection ''getBlockTimestamp''))
      | Some (Resolved ts) \<Rightarrow>
          if rv_from ev = ''0''
          then
            (case newDonation pledgeStateHelper w (rv_to ev) (rv_amount ev)
                    (transactionHash ev) retry of
               Inl err \<Rightarrow>
                 (case err of
                    ReProcessEvent \<Rightarrow> ([SetTimeout 5000 True], Finished)
                  | _ \<Rightarrow> ([LoggerError err, QueuePurge (transactionHash ev)], Finished))
             | Inr calls \<Rightarrow> (calls @ [QueuePurge (transactionHash ev)], Finished))
          else
            (u_transfer pledgeStateHelper w (rv_from ev) (rv_to ev) (rv_amount ev) ts
                 (transactionHash ev)
               @ [QueuePurge (transactionHash ev)], Finished))"

text \<open>
  \<^verbatim>\<open>transfer(event)\<close>; \<open>isProcessing\<close> is the answer of \<^verbatim>\<open>queue.isProcessing\<close>.
\<close>

definition transfer :: "(string \<Rightarrow> bool) \<Rightarrow> transferEvent \<Rightarrow> error + call list" where
  "transfer isProcessing ev =
     (if event ev \<noteq> ''Transfer'' then Inl NotTransferEvent
      else Inr (QueueAdd (transactionHash ev)
                # (if \<not> isProcessing (transactionHash ev)
                   then [QueuePurge (transactionHash ev)] else [])))"


section \<open>Concrete pledges, admins, donations and events\<close>

definition ex_giver :: pledgeAdmin where
  "ex_giver = \<lparr>adminId = JNum 1, adminType = ''giver'', typeId = JStr ''0x01'',
                admin = [(''address'', JStr ''0x01'')]\<rparr>"

definition ex_dac :: pledgeAdmin where
  "ex_dac = \<lparr>adminId = JNum 2, adminType = ''dac'', typeId = JStr ''dac-1'',
              admin = [(''title'', JStr ''a dac'')]\<rparr>"

definition ex_pledge_normal :: pledge where
  "ex_pledge_normal = \<lparr>owner = ''1'', pledgeState = ''0'', nDelegates = ''0'',
      intendedProject = ''0'', commitTime = ''0'', oldPledge = ''0''\<rparr>"

definition ex_pledge_paying :: pledge where
  "ex_pledge_paying = \<lparr>owner = ''1'', pledgeState = ''1'', nDelegates = ''1'',
      intendedProject = ''0'', commitTime = ''0'', oldPledge = ''3''\<rparr>"

definition ex_donation :: obj where
  "ex_donation = [(''_id'', JStr ''d1''), (''amount'', JStr ''100''), (''pledgeId'', JStr ''3''),
      (''txHash'', JStr ''0xaa''), (''status'', JStr ''waiting''), (''delegate'', JNum 2),
      (''delegateId'', JStr ''dac-1'')]"

definition ex_world :: world where
  "ex_world = \<lparr>getPledge = [''3'' \<mapsto> ex_pledge_normal, ''5'' \<mapsto> ex_pledge_paying],
      getPledgeDelegate = (\<lambda>idPledge idx. if idx = ''1'' then Some ''2'' else None),
      pledgeAdmins = [''1'' \<mapsto> ex_giver, ''2'' \<mapsto> ex_dac],
      donations = [ex_donation],
      createdId = JStr ''d2'',
      arrival = [4, 2, 0]\<rparr>"

definition ex_mint :: "string \<Rightarrow> transferEvent" where
  "ex_mint txHash = \<lparr>event = ''Transfer'', rv_from = ''0'', rv_to = ''5'', rv_amount = ''100'',
      transactionHash = txHash, blockNumber = 7\<rparr>"

definition ex_mint_unreadable :: transferEvent where
  "ex_mint_unreadable = \<lparr>event = ''Transfer'', rv_from = ''0'', rv_to = ''9'',
      rv_amount = ''100'', transactionHash = ''0xbb'', blockNumber = 7\<rparr>"

definition ex_minted :: obj where
  "ex_minted = [(''giverAddress'', JStr ''0x01''), (''amount'', JStr ''100''),
      (''pledgeId'', JStr ''5''), (''owner'', JStr ''1''), (''ownerId'', JStr ''0x01''),
      (''ownerType'', JStr ''giver''), (''status'', JStr ''waiting''),
      (''paymentStatus'', JStr ''1''), (''txHash'', JStr ''0xbb'')]"

definition ex_second :: obj where
  "ex_second = [(''_id'', JStr ''d2''), (''amount'', JStr ''60''), (''pledgeId'', JStr ''3''),
      (''txHash'', JStr ''0xcc'')]"

definition ex_twin :: obj where
  "ex_twin = [(''_id'', JStr ''d3''), (''amount'', JStr ''60''), (''pledgeId'', JStr ''3''),
      (''txHash'', JStr ''0xaa'')]"

definition ex_world2 :: world where
  "ex_world2 = ex_world\<lparr>donations := [ex_donation, ex_second]\<rparr>"

definition ex_transfer :: transferInfo where
  "ex_transfer = \<lparr>ti_fromPledgeAdmin = ex_giver, ti_toPledgeAdmin = ex_giver,
      ti_fromPledge = ex_pledge_normal, ti_toPledge = ex_pledge_paying, ti_toPledgeId = ''5'',
      ti_delegate = Some ex_dac, ti_intendedProject = None, ti_donation = ex_donation,
      ti_amount = ''40'', ti_ts = 7000, ti_toDonation = None\<rparr>"

definition ex_patch :: obj where
  "ex_patch = [(''giverAddress'', JStr ''0x01''), (''amount'', JStr ''100''),
      (''pledgeId'', JStr ''5''), (''owner'', JStr ''1''), (''ownerId'', JStr ''0x01''),
      (''ownerType'', JStr ''giver''), (''status'', JStr ''waiting''),
      (''paymentStatus'', JStr ''1'')]"


section \<open>Properties of the cache\<close>

lemma fold_delete_filter:
  "fold AList.delete ks al = filter (\<lambda>e. fst e \<notin> set ks) al"
proof (induction ks arbitrary: al)
  case Nil
  show ?case by simp
next
  case (Cons k ks)
  have "AList.delete k al = filter (\<lambda>e. k \<noteq> fst e) al"
    by (simp add: AList.delete_eq case_prod_unfold)
  with Cons show ?case by (auto intro: filter_cong)
qed

lemma delete_sorted_keys_empty: "delete_sorted_keys bt = []"
  by (simp add: delete_sorted_keys_def fold_delete_filter)

text \<open>
  C8: after every insertion into the block-timestamp cache, the cache holds at most 50
  entries: the insertion with its eviction by itself, and so the cache that the handler of a
  resolved fetch leaves behind.
\<close>

theorem cache_insert_at_most_50:
  "length (map fst (cache_insert b t bt)) \<le> 50 \<and>
   length (map fst (blockTimes (getBlock_then b p timestamp s))) \<le> 50"
proof -
  have "length (map fst (cache_insert b' t' bt')) \<le> 50" for b' t' bt'
    by (simp add: cache_insert_def Let_def delete_sorted_keys_empty)
  then show ?thesis
    by (simp add: getBlock_then_def Let_def split: option.splits)
qed

lemma keys_cache_insert:
  "fst ` set (cache_insert b ts bt) \<subseteq> insert b (fst ` set bt)"
  by (simp add: cache_insert_def Let_def delete_sorted_keys_empty AList.dom_update)

lemma keys_delete: "fst ` set (AList.delete k al) = fst ` set al - {k}"
  by (induction al) auto

lemma keys_remove1:
  "distinct (map fst al) \<Longrightarrow> (k, v) \<in> set al \<Longrightarrow>
     fst ` set (remove1 (k, v) al) = fst ` set al - {k}"
  by (induction al) (auto simp: image_iff)

lemma distinct_keys_remove1:
  "distinct (map fst al) \<Longrightarrow> distinct (map fst (remove1 e al))"
  by (induction al) (auto dest: notin_set_remove1 simp: image_iff)

lemma map_of_keys: "map_of al k = None \<longleftrightarrow> k \<notin> fst ` set al"
  by (simp add: map_of_eq_None_iff)

lemma cache_inv_init: "cache_inv init_state"
  by (simp add: cache_inv_def init_state_def)

lemma cache_inv_call: "cache_inv s \<Longrightarrow> cache_inv (getBlockTimestamp p b s)"
proof -
  assume inv: "cache_inv s"
  show ?thesis
  proof (cases "map_of (blockTimes s) b")
    case (Some ts)
    with inv show ?thesis by (simp add: cache_inv_def getBlockTimestamp_def)
  next
    case None
    note bt = this
    then have nb: "b \<notin> fst ` set (blockTimes s)" by (simp add: map_of_keys)
    show ?thesis
    proof (cases "map_of (fetchingBlocks s) b")
      case (Some ls)
      then have "b \<in> fst ` set (fetchingBlocks s)"
        by (metis map_of_keys option.distinct(1))
      with inv bt Some show ?thesis
        by (auto simp: cache_inv_def getBlockTimestamp_def AList.dom_update)
    next
      case None
      then have "b \<notin> fst ` set (fetchingBlocks s)" by (simp add: map_of_keys)
      with inv have "b \<notin> fst ` set (outstanding s)"
        by (auto simp: cache_inv_def)
      with inv bt nb None show ?thesis
        by (auto simp: cache_inv_def getBlockTimestamp_def AList.dom_update)
    qed
  qed
qed

lemma cache_inv_failed:
  assumes "cache_inv s" and "map_of (outstanding s) b = Some p"
  shows "cache_inv (getBlock_failed b p s)"
proof -
  from assms(2) have "(b, p) \<in> set (outstanding s)" by (rule map_of_SomeD)
  with assms(1) show ?thesis
    by (auto simp: cache_inv_def getBlock_failed_def keys_remove1 distinct_keys_remove1)
qed

lemma cache_inv_then:
  assumes "cache_inv s" and "map_of (outstanding s) b = Some p"
  shows "cache_inv (getBlock_then b p t s)"
proof -
  from assms(2) have mem: "(b, p) \<in> set (outstanding s)" by (rule map_of_SomeD)
  with assms(1) have "b \<in> fst ` set (fetchingBlocks s)"
    by (force simp: cache_inv_def)
  then obtain ls where ls: "map_of (fetchingBlocks s) b = Some ls"
    by (metis map_of_keys not_Some_eq)
  have "fst ` set (cache_insert b (t * 1000) (blockTimes s)) \<subseteq> insert b (fst ` set (blockTimes s))"
    by (rule keys_cache_insert)
  with assms(1) mem ls show ?thesis
    by (auto simp: cache_inv_def getBlock_then_def Let_def keys_remove1 keys_delete
          distinct_keys_remove1)
qed

lemma cache_inv_step: "cache_inv s \<Longrightarrow> step e s = Some s' \<Longrightarrow> cache_inv s'"
  by (cases e) (auto simp: cache_inv_call cache_inv_failed cache_inv_then
        split: option.splits block_result.splits)

lemma cache_inv_run: "cache_inv s \<Longrightarrow> run es s = Some s' \<Longrightarrow> cache_inv s'"
  by (induction es arbitrary: s) (auto split: option.splits dest: cache_inv_step)


lemma pending_has_listeners:
  assumes "cache_inv s" and "(b, p0) \<in> set (outstanding s)"
  shows "map_of (outstanding s) b = Some p0"
    and "map_of (blockTimes s) b = None"
    and "\<exists>ls. map_of (fetchingBlocks s) b = Some ls"
proof -
  from assms show "map_of (outstanding s) b = Some p0"
    by (simp add: cache_inv_def)
  from assms have f: "b \<in> fst ` set (fetchingBlocks s)"
    by (force simp: cache_inv_def)
  with assms(1) have "b \<notin> fst ` set (blockTimes s)"
    by (auto simp: cache_inv_def)
  then show "map_of (blockTimes s) b = None" by (simp add: map_of_keys)
  from f show "\<exists>ls. map_of (fetchingBlocks s) b = Some ls"
    by (metis map_of_keys not_Some_eq)
qed

lemma listeners_step:
  assumes inv: "cache_inv s" and mem: "(b, p0) \<in> set (outstanding s)"
    and f: "map_of (fetchingBlocks s) b = Some ls"
    and ns: "\<not> settles b e" and st: "step e s = Some s'"
  shows "(b, p0) \<in> set (outstanding s') \<and>
         (\<exists>more. map_of (fetchingBlocks s') b = Some (ls @ more))"
proof (cases e)
  case (Call p b')
  from pending_has_listeners [OF inv mem] have c: "map_of (blockTimes s) b = None"
    by blast
  show ?thesis
  proof (cases "b' = b")
    case True
    with Call st c f mem show ?thesis
      by (auto simp: getBlockTimestamp_def AList.update_conv')
  next
    case False
    with Call st f mem show ?thesis
      by (auto simp: getBlockTimestamp_def AList.update_conv' split: option.splits)
  qed
next
  case (Settle b' r)
  with ns have ne: "b' \<noteq> b" by simp
  from Settle st obtain p' where o: "map_of (outstanding s) b' = Some p'"
    by (auto split: option.splits)
  from ne mem have m: "(b, p0) \<in> set (remove1 (b', p') (outstanding s))"
    by simp
  from Settle st o ne f m show ?thesis
    by (cases r)
       (auto simp: getBlock_then_def getBlock_failed_def Let_def split: option.splits)
qed

lemma listeners_run:
  "cache_inv s \<Longrightarrow> (b, p0) \<in> set (outstanding s) \<Longrightarrow>
   map_of (fetchingBlocks s) b = Some ls \<Longrightarrow> list_all (\<lambda>e. \<not> settles b e) es \<Longrightarrow>
   run es s = Some s' \<Longrightarrow>
   cache_inv s' \<and> (b, p0) \<in> set (outstanding s') \<and>
   (\<exists>more. map_of (fetchingBlocks s') b = Some (ls @ more))"
proof (induction es arbitrary: s ls)
  case Nil
  then show ?case by simp
next
  case (Cons e es)
  from Cons.prems(5) obtain s1 where s1: "step e s = Some s1" and r: "run es s1 = Some s'"
    by (auto split: option.splits)
  from Cons.prems(4) have ne: "\<not> settles b e" and rest: "list_all (\<lambda>e. \<not> settles b e) es"
    by simp_all
  from listeners_step [OF Cons.prems(1,2,3) ne s1] obtain more where
    m1: "(b, p0) \<in> set (outstanding s1)" and f1: "map_of (fetchingBlocks s1) b = Some (ls @ more)"
    by blast
  have inv1: "cache_inv s1" using Cons.prems(1) s1 by (rule cache_inv_step)
  from Cons.IH [OF inv1 m1 f1 rest r] show ?case by auto
qed

lemma settle_resolves_listeners:
  assumes "cache_inv s" and "(b, p0) \<in> set (outstanding s)"
    and "map_of (fetchingBlocks s) b = Some ls"
  shows "\<exists>s'. step (Settle b (Block t)) s = Some s' \<and>
     settled s' = settled s @ map (\<lambda>l. (b, l, Resolved (t * 1000))) ls
                            @ [(b, p0, Resolved (t * 1000))]"
  using pending_has_listeners(1) [OF assms(1,2)] assms(3)
  by (simp add: getBlock_then_def Let_def)

text \<open>
  C4: while a fetch for a block number is in flight, a further call of getBlockTimestamp for
  that block number attaches to the pending fetch (it is appended to the listeners and starts
  no fetch) and is resolved with the fetch's result when the block arrives, whatever other
  calls and fetches of other blocks happen in between; in every reachable state at most one
  fetch is outstanding per block number.
\<close>

theorem fetch_coalescing:
  assumes "run evs init_state = Some s"
  shows "distinct (map fst (outstanding s)) \<and>
    (\<forall>(b, p0) \<in> set (outstanding s). \<forall>p t. \<exists>ls.
       map_of (fetchingBlocks s) b = Some ls \<and>
       step (Call p b) s =
         Some (s\<lparr>fetchingBlocks := AList.update b (ls @ [p]) (fetchingBlocks s)\<rparr>) \<and>
       (\<exists>s'. run [Call p b, Settle b (Block t)] s = Some s' \<and>
          outstanding s' = remove1 (b, p0) (outstanding s) \<and>
          settled s' = settled s @ map (\<lambda>l. (b, l, Resolved (t * 1000))) (ls @ [p])
                                 @ [(b, p0, Resolved (t * 1000))]) \<and>
       (\<forall>evs' s2. list_all (\<lambda>e. \<not> settles b e) evs' \<and> run (Call p b # evs') s = Some s2
          \<longrightarrow> (\<exists>ls2 s3.
                 (b, p0) \<in> set (outstanding s2) \<and>
                 map_of (fetchingBlocks s2) b = Some ls2 \<and> p \<in> set ls2 \<and>
                 step (Settle b (Block t)) s2 = Some s3 \<and>
                 settled s3 = settled s2 @ map (\<lambda>l. (b, l, Resolved (t * 1000))) ls2
                                         @ [(b, p0, Resolved (t * 1000))] \<and>
                 (b, p, Resolved (t * 1000)) \<in> set (settled s3))))"
proof -
  from assms have inv: "cache_inv s"
    using cache_inv_init cache_inv_run by blast
  then have d: "distinct (map fst (outstanding s))"
    by (simp add: cache_inv_def)
  have "\<exists>ls. map_of (fetchingBlocks s) b = Some ls \<and>
       step (Call p b) s =
         Some (s\<lparr>fetchingBlocks := AList.update b (ls @ [p]) (fetchingBlocks s)\<rparr>) \<and>
       (\<exists>s'. run [Call p b, Settle b (Block t)] s = Some s' \<and>
          outstanding s' = remove1 (b, p0) (outstanding s) \<and>
          settled s' = settled s @ map (\<lambda>l. (b, l, Resolved (t * 1000))) (ls @ [p])
                                 @ [(b, p0, Resolved (t * 1000))]) \<and>
       (\<forall>evs' s2. list_all (\<lambda>e. \<not> settles b e) evs' \<and> run (Call p b # evs') s = Some s2
          \<longrightarrow> (\<exists>ls2 s3.
                 (b, p0) \<in> set (outstanding s2) \<and>
                 map_of (fetchingBlocks s2) b = Some ls2 \<and> p \<in> set ls2 \<and>
                 step (Settle b (Block t)) s2 = Some s3 \<and>
                 settled s3 = settled s2 @ map (\<lambda>l. (b, l, Resolved (t * 1000))) ls2
                                         @ [(b, p0, Resolved (t * 1000))] \<and>
                 (b, p, Resolved (t * 1000)) \<in> set (settled s3)))"
    if mem: "(b, p0) \<in> set (outstanding s)" for b p0 p t
  proof -
    from pending_has_listeners [OF inv mem] obtain ls where
      o: "map_of (outstanding s) b = Some p0" and
      c: "map_of (blockTimes s) b = None" and
      f: "map_of (fetchingBlocks s) b = Some ls"
      by blast
    define s1 where "s1 = s\<lparr>fetchingBlocks := AList.update b (ls @ [p]) (fetchingBlocks s)\<rparr>"
    have call: "getBlockTimestamp p b s = s1"
      by (simp add: getBlockTimestamp_def c f s1_def)
    have inv1: "cache_inv s1" using cache_inv_call [OF inv, of p b] by (simp add: call)
    have m1: "(b, p0) \<in> set (outstanding s1)" using mem by (simp add: s1_def)
    have f1: "map_of (fetchingBlocks s1) b = Some (ls @ [p])"
      by (simp add: s1_def AList.update_conv')
    have later: "\<exists>ls2 s3.
                 (b, p0) \<in> set (outstanding s2) \<and>
                 map_of (fetchingBlocks s2) b = Some ls2 \<and> p \<in> set ls2 \<and>
                 step (Settle b (Block t)) s2 = Some s3 \<and>
                 settled s3 = settled s2 @ map (\<lambda>l. (b, l, Resolved (t * 1000))) ls2
                                         @ [(b, p0, Resolved (t * 1000))] \<and>
                 (b, p, Resolved (t * 1000)) \<in> set (settled s3)"
      if ns: "list_all (\<lambda>e. \<not> settles b e) evs'" and r: "run (Call p b # evs') s = Some s2"
      for evs' s2
    proof -
      from r have r1: "run evs' s1 = Some s2" by (simp add: call)
      from listeners_run [OF inv1 m1 f1 ns r1] obtain more where
        inv2: "cache_inv s2" and m2: "(b, p0) \<in> set (outstanding s2)" and
        f2: "map_of (fetchingBlocks s2) b = Some ((ls @ [p]) @ more)"
        by blast
      from settle_resolves_listeners [OF inv2 m2 f2, of t] obtain s3 where
        s3: "step (Settle b (Block t)) s2 = Some s3" and
        log: "settled s3 = settled s2
                @ map (\<lambda>l. (b, l, Resolved (t * 1000))) ((ls @ [p]) @ more)
                @ [(b, p0, Resolved (t * 1000))]"
        by blast
      have "(b, p, Resolved (t * 1000)) \<in> set (settled s3)"
        by (simp add: log)
      with m2 f2 s3 log show ?thesis
        by (intro exI [of _ "(ls @ [p]) @ more"] exI [of _ s3]) simp
    qed
    have direct: "\<exists>s'. run [Call p b, Settle b (Block t)] s = Some s' \<and>
          outstanding s' = remove1 (b, p0) (outstanding s) \<and>
          settled s' = settled s @ map (\<lambda>l. (b, l, Resolved (t * 1000))) (ls @ [p])
                                 @ [(b, p0, Resolved (t * 1000))]"
      by (simp add: call s1_def o getBlock_then_def Let_def AList.update_conv')
    have st: "step (Call p b) s =
         Some (s\<lparr>fetchingBlocks := AList.update b (ls @ [p]) (fetchingBlocks s)\<rparr>)"
      by (simp add: call s1_def)
    from f st direct later show ?thesis by blast
  qed
  with d show ?thesis by blast
qed

lemma stuck_step:
  assumes "cache_inv s" and "stuck b s" and "step e s = Some s'"
  shows "stuck b s' \<and> filter (\<lambda>e. fst e = b) (settled s') = filter (\<lambda>e. fst e = b) (settled s)"
proof (cases e)
  case (Call p b')
  from assms(1,2) have c: "map_of (blockTimes s) b = None"
    by (auto simp: cache_inv_def stuck_def map_of_keys)
  from assms(2) obtain ls where f: "map_of (fetchingBlocks s) b = Some ls"
    by (metis stuck_def map_of_keys not_Some_eq)
  show ?thesis
  proof (cases "b' = b")
    case True
    with Call assms c f show ?thesis
      by (auto simp: stuck_def getBlockTimestamp_def AList.dom_update)
  next
    case False
    with Call assms show ?thesis
      by (force simp: stuck_def getBlockTimestamp_def AList.dom_update split: option.splits)
  qed
next
  case (Settle b' r)
  with assms(3) obtain p where o: "map_of (outstanding s) b' = Some p"
    by (auto split: option.splits)
  then have mem: "(b', p) \<in> set (outstanding s)" by (rule map_of_SomeD)
  with assms(2) have ne: "b' \<noteq> b" by (force simp: stuck_def)
  from assms(1) have d: "distinct (map fst (outstanding s))" by (simp add: cache_inv_def)
  from Settle assms(2,3) o ne show ?thesis
    by (cases r)
       (force simp: stuck_def getBlock_then_def getBlock_failed_def Let_def keys_delete
          keys_remove1 [OF d mem] split: option.splits)+
qed

lemma stuck_run:
  "cache_inv s \<Longrightarrow> stuck b s \<Longrightarrow> run es s = Some s' \<Longrightarrow>
     stuck b s' \<and> cache_inv s' \<and>
     filter (\<lambda>e. fst e = b) (settled s') = filter (\<lambda>e. fst e = b) (settled s)"
proof (induction es arbitrary: s)
  case Nil
  then show ?case by simp
next
  case (Cons e es)
  from Cons.prems(3) obtain s1 where s1: "step e s = Some s1" and r: "run es s1 = Some s'"
    by (auto split: option.splits)
  from stuck_step [OF Cons.prems(1,2) s1] cache_inv_step [OF Cons.prems(1) s1]
    Cons.IH [of s1] r
  show ?case by simp
qed

text \<open>
  C9: once the fetch for a block number has been rejected, the in-flight marker of that block
  number stays for ever: in every later state the marker is set and no fetch for the block is
  outstanding, every call for the block is appended to the listeners and starts no fetch, and
  no promise for that block number is settled any more.
\<close>

theorem failed_fetch_never_cleared:
  assumes "run evs init_state = Some s"
    and "step (Settle b GetBlockRejected) s = Some s1"
    and "run evs' s1 = Some s2"
  shows "map_of (fetchingBlocks s2) b \<noteq> None \<and>
    map_of (outstanding s2) b = None \<and>
    (\<forall>p. \<exists>ls. map_of (fetchingBlocks s2) b = Some ls \<and>
       step (Call p b) s2 =
         Some (s2\<lparr>fetchingBlocks := AList.update b (ls @ [p]) (fetchingBlocks s2)\<rparr>)) \<and>
    filter (\<lambda>e. fst e = b) (settled s2) = filter (\<lambda>e. fst e = b) (settled s1)"
proof -
  from assms(1) have inv: "cache_inv s"
    using cache_inv_init cache_inv_run by blast
  from assms(2) obtain p0 where o: "map_of (outstanding s) b = Some p0"
    and s1: "s1 = getBlock_failed b p0 s"
    by (auto split: option.splits)
  from o have mem: "(b, p0) \<in> set (outstanding s)" by (rule map_of_SomeD)
  from inv have d: "distinct (map fst (outstanding s))" by (simp add: cache_inv_def)
  from inv mem have "b \<in> fst ` set (fetchingBlocks s)" by (force simp: cache_inv_def)
  then have st1: "stuck b s1"
    by (simp add: s1 stuck_def getBlock_failed_def keys_remove1 [OF d mem])
  have inv1: "cache_inv s1" using inv assms(2) by (rule cache_inv_step)
  from stuck_run [OF inv1 st1 assms(3)] have st2: "stuck b s2" and inv2: "cache_inv s2"
    and log: "filter (\<lambda>e. fst e = b) (settled s2) = filter (\<lambda>e. fst e = b) (settled s1)"
    by simp_all
  from st2 obtain ls where f: "map_of (fetchingBlocks s2) b = Some ls"
    by (metis stuck_def map_of_keys not_Some_eq)
  from st2 inv2 have c: "map_of (blockTimes s2) b = None"
    by (auto simp: cache_inv_def stuck_def map_of_keys)
  from st2 have o2: "map_of (outstanding s2) b = None"
    by (simp add: stuck_def map_of_keys)
  show ?thesis
    by (simp add: f o2 log getBlockTimestamp_def c)
qed


theorem fetch_coalescing_witness:
  "run [Call 1 7] init_state = Some one_call_state \<and>
   (7, 1) \<in> set (outstanding one_call_state) \<and>
   distinct (map fst (outstanding one_call_state)) \<and>
   map_of (fetchingBlocks one_call_state) 7 = Some [] \<and>
   step (Call 2 7) one_call_state = Some two_calls_state \<and>
   outstanding two_calls_state = outstanding one_call_state \<and>
   list_all (\<lambda>e. \<not> settles 7 e) [Call 3 8] \<and>
   run (Call 2 7 # [Call 3 8]) one_call_state = Some three_calls_state \<and>
   (\<exists>ls2 s3. (7, 1) \<in> set (outstanding three_calls_state) \<and>
      map_of (fetchingBlocks three_calls_state) 7 = Some ls2 \<and> 2 \<in> set ls2 \<and>
      step (Settle 7 (Block 5)) three_calls_state = Some s3 \<and>
      settled s3 = settled three_calls_state @ map (\<lambda>l. (7, l, Resolved (5 * 1000))) ls2
                     @ [(7, 1, Resolved (5 * 1000))] \<and>
      (7, 2, Resolved (5 * 1000)) \<in> set (settled s3))"
proof -
  have r: "run [Call 1 7] init_state = Some one_call_state"
    by (simp add: init_state_def getBlockTimestamp_def one_call_state_def)
  have m: "(7, 1) \<in> set (outstanding one_call_state)"
    by (simp add: one_call_state_def)
  have f: "map_of (fetchingBlocks one_call_state) 7 = Some []"
    by (simp add: one_call_state_def)
  have c: "step (Call 2 7) one_call_state = Some two_calls_state"
    by (simp add: one_call_state_def two_calls_state_def getBlockTimestamp_def)
  have o: "outstanding two_calls_state = outstanding one_call_state"
    by (simp add: one_call_state_def two_calls_state_def)
  have n: "list_all (\<lambda>e. \<not> settles 7 e) [Call 3 8]" by simp
  have r2: "run (Call 2 7 # [Call 3 8]) one_call_state = Some three_calls_state"
    by (simp add: one_call_state_def three_calls_state_def getBlockTimestamp_def)
  from fetch_coalescing [OF r] m
  have "\<forall>p t. \<exists>ls. map_of (fetchingBlocks one_call_state) 7 = Some ls \<and>
       (\<forall>evs' s2. list_all (\<lambda>e. \<not> settles 7 e) evs'
            \<and> run (Call p 7 # evs') one_call_state = Some s2
          \<longrightarrow> (\<exists>ls2 s3.
                 (7, 1) \<in> set (outstanding s2) \<and>
                 map_of (fetchingBlocks s2) 7 = Some ls2 \<and> p \<in> set ls2 \<and>
                 step (Settle 7 (Block t)) s2 = Some s3 \<and>
                 settled s3 = settled s2 @ map (\<lambda>l. (7, l, Resolved (t * 1000))) ls2
                                         @ [(7, 1, Resolved (t * 1000))] \<and>
                 (7, p, Resolved (t * 1000)) \<in> set (settled s3)))"
    by fast
  with n r2 have "\<exists>ls2 s3. (7, 1) \<in> set (outstanding three_calls_state) \<and>
      map_of (fetchingBlocks three_calls_state) 7 = Some ls2 \<and> 2 \<in> set ls2 \<and>
      step (Settle 7 (Block 5)) three_calls_state = Some s3 \<and>
      settled s3 = settled three_calls_state @ map (\<lambda>l. (7, l, Resolved (5 * 1000))) ls2
                     @ [(7, 1, Resolved (5 * 1000))] \<and>
      (7, 2, Resolved (5 * 1000)) \<in> set (settled s3)"
    by blast
  with r m f c o n r2 fetch_coalescing [OF r] show ?thesis
    by (simp add: cache_inv_def)
qed

theorem failed_fetch_never_cleared_witness:
  "run [Call 1 7] init_state = Some one_call_state \<and>
   step (Settle 7 GetBlockRejected) one_call_state = Some failed_state \<and>
   run [Call 2 7] failed_state = Some waiting_state \<and>
   map_of (fetchingBlocks waiting_state) 7 \<noteq> None \<and>
   map_of (outstanding waiting_state) 7 = None \<and>
   (\<forall>p. \<exists>ls. map_of (fetchingBlocks waiting_state) 7 = Some ls \<and>
       step (Call p 7) waiting_state =
         Some (waiting_state\<lparr>fetchingBlocks :=
                 AList.update 7 (ls @ [p]) (fetchingBlocks waiting_state)\<rparr>)) \<and>
   filter (\<lambda>e. fst e = 7) (settled waiting_state)
     = filter (\<lambda>e. fst e = 7) (settled failed_state)"
proof -
  have r: "run [Call 1 7] init_state = Some one_call_state"
    by (simp add: init_state_def getBlockTimestamp_def one_call_state_def)
  have f: "step (Settle 7 GetBlockRejected) one_call_state = Some failed_state"
    by (simp add: one_call_state_def failed_state_def getBlock_failed_def)
  have w: "run [Call 2 7] failed_state = Some waiting_state"
    by (simp add: failed_state_def waiting_state_def getBlockTimestamp_def)
  from r f w failed_fetch_never_cleared [OF r f w] show ?thesis by blast
qed

lemma length_full_cache: "length full_cache = 50"
  by (simp add: full_cache_def)

lemma full_cache_no_51: "51 \<notin> fst ` set full_cache"
  by (auto simp: full_cache_def)

lemma length_update_new:
  "k \<notin> fst ` set al \<Longrightarrow> length (AList.update k v al) = Suc (length al)"
  by (induction al) auto

text \<open>
  C2: the eviction step should keep the entries with the highest block numbers, the newly
  inserted one among them. On the code, inserting block 51 into a cache that holds the blocks
  1 to 50 leaves the cache empty: every key is deleted, that of the new entry too.
\<close>

theorem eviction_empties_cache:
  "length (map fst full_cache) = 50 \<and>
   cache_insert 51 51000 full_cache = [] \<and>
   map_of (cache_insert 51 51000 full_cache) 51 = None"
  by (simp add: cache_insert_def Let_def delete_sorted_keys_empty length_full_cache
        length_update_new [OF full_cache_no_51])


section \<open>Properties of the reconciliation\<close>

declare digits.simps [simp del]

lemma digits_not_empty: "digits n \<noteq> []"
  by (subst digits.simps) simp

lemma of_char_digit: "d < 10 \<Longrightarrow> (of_char (char_of (48 + d :: nat)) :: nat) = 48 + d"
  by simp

lemma digits_all_digit: "list_all is_digit (digits n)"
proof (induction n rule: digits.induct)
  case (1 n)
  show ?case
  proof (cases "n < 10")
    case True
    then show ?thesis by (subst digits.simps) (simp add: is_digit_def)
  next
    case False
    have "n mod 10 < 10" by simp
    then have "(of_char (char_of (48 + n mod 10)) :: nat) = 48 + n mod 10"
      by (rule of_char_digit)
    then have "is_digit (char_of (48 + n mod 10))"
      unfolding is_digit_def by (simp only:) simp
    with False 1 show ?thesis by (subst digits.simps) simp
  qed
qed

lemma digits_value: "foldl (\<lambda>a c. 10 * a + (of_char c - 48)) 0 (digits n) = n"
proof (induction n rule: digits.induct)
  case (1 n)
  show ?case
  proof (cases "n < 10")
    case True
    then show ?thesis by (subst digits.simps) simp
  next
    case False
    have "n mod 10 < 10" by simp
    then have "(of_char (char_of (48 + n mod 10)) :: nat) = 48 + n mod 10"
      by (rule of_char_digit)
    then have "(of_char (char_of (48 + n mod 10)) :: nat) - 48 = n mod 10"
      by (simp only: add_diff_cancel_left')
    with False 1 show ?thesis by (subst digits.simps) simp
  qed
qed

lemma decimal_digits: "decimal (digits n) = Some n"
  by (simp add: decimal_def digits_not_empty digits_all_digit digits_value)

lemma hd_digits: "hd (digits n) \<noteq> CHR ''-''"
proof -
  have "is_digit (hd (digits n))"
    using digits_all_digit [of n] digits_not_empty [of n]
    by (cases "digits n") simp_all
  then show ?thesis by (auto simp: is_digit_def)
qed

lemma toBN_toString: "toBN (bn_toString i) = Some i"
  by (simp add: toBN_def bn_toString_def decimal_digits hd_digits digits_not_empty)

lemma map_of_assign:
  "distinct (map fst src) \<Longrightarrow> map_of (assign target src) = map_of target ++ map_of src"
proof (induction src arbitrary: target)
  case Nil
  show ?case by (simp add: assign_def)
next
  case (Cons a src)
  obtain k v where a: "a = (k, v)" by (cases a)
  from Cons.prems a have k: "map_of src k = None"
    by (simp add: map_of_eq_None_iff)
  have "assign target (a # src) = assign (AList.update k v target) src"
    by (simp add: assign_def a)
  also have "map_of \<dots> = (map_of target)(k \<mapsto> v) ++ map_of src"
    using Cons by (simp add: AList.update_conv')
  also have "\<dots> = map_of target ++ map_of (a # src)"
    using k by (auto simp: a fun_eq_iff map_add_def split: option.splits)
  finally show ?case .
qed

lemma mutation_distinct: "distinct (map fst (fst (createDonationMutation h ti)))"
  by (simp add: createDonationMutation_def Let_def assign_def AList.distinct_update
        AList.distinct_delete split: option.splits)

lemma mutation_amount:
  "map_of (fst (createDonationMutation h ti)) ''amount'' = Some (JStr (ti_amount ti))"
  by (simp add: createDonationMutation_def Let_def assign_def AList.update_conv'
        AList.delete_conv' split: option.splits)

lemma mutation_calls: "filter donations_call (snd (createDonationMutation h ti)) = []"
  by (simp add: createDonationMutation_def Let_def)

lemma history_calls: "filter donations_call (trackDonationHistory ti) = []"
  by (simp add: trackDonationHistory_def Let_def split: option.splits)


lemma created_amount:
  "jsget (fold AList.delete
            [''_id'', ''giver'', ''ownerEntity'', ''requiredConfirmations'', ''confirmations'']
            (assign (assign [] d) (fst (createDonationMutation h ti)))) ''amount''
     = JStr (ti_amount ti)"
  by (simp add: jsget_def AList.delete_conv' map_of_assign [OF mutation_distinct]
        map_add_def mutation_amount)

text \<open>
  C6: when the matched donation's recorded amount is a decimal strictly above the transferred
  amount, _doTransfer makes exactly two calls to the donation store: one patch of the original
  donation, whose new amount is the recorded amount minus the transferred amount, and one
  create of a donation whose amount is the transferred amount; as integers the two amounts add
  up to the amount recorded before.
\<close>

theorem split_conserves_amount:
  assumes "jsget (ti_donation ti) ''amount'' = JStr recorded"
    and "toBN recorded = Some before"
    and "toBN (ti_amount ti) = Some moved"
    and "moved < before"
  shows "\<exists>status remaining created.
     filter donations_call (fst (u_doTransfer h newId ti)) =
       [DonationsPatch (jsget (ti_donation ti) ''_id'')
          [(''status'', JStr status), (''amount'', JStr remaining)],
        DonationsCreate created] \<and>
     snd (u_doTransfer h newId ti) = None \<and>
     toBN remaining = Some (before - moved) \<and>
     jsget created ''amount'' = JStr (ti_amount ti) \<and>
     (\<exists>a c. toBN remaining = Some a \<and> toBN (ti_amount ti) = Some c \<and> a + c = before)"
proof -
  from assms have ne: "recorded \<noteq> ti_amount ti" by auto
  obtain mutation milestone where cm: "createDonationMutation h ti = (mutation, milestone)"
    by (cases "createDonationMutation h ti")
  define status where "status =
     (if ti_amount ti = ''0'' then ''paid''
      else getDonationStatus (ti_fromPledge ti) (ti_fromPledgeAdmin ti)
             (truthy (jsget (ti_donation ti) ''intendedProject'')
              \<and> jsget (ti_donation ti) ''intendedProject'' \<noteq> JStr ''0'')
             (truthy (jsget (ti_donation ti) ''delegate'')))"
  define created where "created =
     fold AList.delete
       [''_id'', ''giver'', ''ownerEntity'', ''requiredConfirmations'', ''confirmations'']
       (assign (assign [] (ti_donation ti)) mutation)"
  have upd: "updateDonation ti =
     Inr (DonationsPatch (jsget (ti_donation ti) ''_id'')
            [(''status'', JStr status), (''amount'', JStr (bn_toString (before - moved)))])"
    using assms by (simp add: updateDonation_def Let_def status_def)
  have ms: "filter donations_call milestone = []"
    using mutation_calls [of h ti] by (simp add: cm)
  have run: "u_doTransfer h newId ti =
     (milestone @ [DonationsPatch (jsget (ti_donation ti) ''_id'')
            [(''status'', JStr status), (''amount'', JStr (bn_toString (before - moved)))],
          DonationsCreate created]
        @ trackDonationHistory (ti\<lparr>ti_toDonation := Some (AList.update ''_id'' newId created)\<rparr>),
      None)"
    using assms(1) ne by (simp add: u_doTransfer_def cm upd created_def Let_def)
  have am: "jsget created ''amount'' = JStr (ti_amount ti)"
    using created_amount [of "ti_donation ti" h ti] by (simp add: created_def cm)
  show ?thesis
    apply (rule exI [of _ status])
    apply (rule exI [of _ "bn_toString (before - moved)"])
    apply (rule exI [of _ created])
    apply (simp add: run ms history_calls toBN_toString am assms(3))
    done
qed

text \<open>
  C10: when the destination pledge is Paying ('1'), has a last-chain delegate, and the matched
  donation had a delegate, the mutation of createDonationMutation sets delegate and delegateId
  to the new delegate and, at once, carries a $unset directive for delegate, delegateId and
  delegateType.
\<close>

theorem paying_sets_and_unsets_delegate:
  assumes "pledgeState (ti_toPledge ti) = ''1''"
    and "ti_delegate ti = Some d"
    and "truthy (jsget (ti_donation ti) ''delegate'')"
  shows "map_of (fst (createDonationMutation h ti)) ''delegate'' = Some (adminId d) \<and>
    map_of (fst (createDonationMutation h ti)) ''delegateId'' = Some (typeId d) \<and>
    map_of (fst (createDonationMutation h ti)) ''$unset'' =
      Some (JObj [(''delegate'', JBool True), (''delegateId'', JBool True),
                  (''delegateType'', JBool True)])"
  using assms
  by (simp add: createDonationMutation_def Let_def assign_def AList.update_conv'
        AList.delete_conv' split: option.splits)

lemmas ex_defs = ex_giver_def ex_dac_def ex_pledge_normal_def ex_pledge_paying_def
  ex_donation_def ex_world_def ex_mint_def ex_minted_def

lemma jsget_Nil [simp]: "jsget [] k = JUndefined"
  by (simp add: jsget_def)

lemma jsget_Cons [simp]: "jsget ((k, v) # ob) k' = (if k = k' then v else jsget ob k')"
  by (simp add: jsget_def)

lemmas run_defs = newDonation_def andThen_def orReject_def donations_find_def
  assign_def Let_def

text \<open>
  C1 as stated fails: for a mint into a pledge whose state is Paying, the status by the
  destination's context would be 'paying', and the created donation has status 'waiting'.
\<close>

theorem mint_status_counterexample:
  "getPledge ex_world ''5'' = Some ex_pledge_paying \<and>
   pledgeState ex_pledge_paying = ''1'' \<and>
   getDonationStatus ex_pledge_paying ex_giver False True = ''paying'' \<and>
   newDonation JStr ex_world ''5'' ''100'' ''0xbb'' True = Inr [DonationsCreate ex_minted] \<and>
   jsget ex_minted ''status'' = JStr ''waiting''"
  by (simp add: ex_defs run_defs getDonationStatus_def)

text \<open>
  C1, amended: for every mint Transfer event, the status written to the created or patched
  donation record is always 'waiting', whatever the destination pledge's state, intended
  project, owning admin or delegates. It agrees with the status computed from that context
  exactly when the pledge is neither Paying nor Paid, the destination has no intended project,
  and the owning admin is a giver or the pledge has an active delegate.
\<close>

theorem mint_status_waiting:
  assumes "newDonation h w pledgeId amount txHash retry = Inr calls"
  shows "(\<exists>written. (calls = [DonationsCreate written]
                      \<or> (\<exists>donationId. calls = [DonationsPatch donationId written]))
            \<and> jsget written ''status'' = JStr ''waiting'') \<and>
    (\<forall>pledge giver hasIntendedProject hasDelegate.
       (getDonationStatus pledge giver hasIntendedProject hasDelegate = ''waiting'') =
       (pledgeState pledge \<noteq> ''1'' \<and> pledgeState pledge \<noteq> ''2'' \<and> \<not> hasIntendedProject
        \<and> (adminType giver = ''giver'' \<or> hasDelegate)))"
proof -
  from assms
  have "\<exists>written. (calls = [DonationsCreate written]
                      \<or> (\<exists>donationId. calls = [DonationsPatch donationId written]))
            \<and> jsget written ''status'' = JStr ''waiting''"
    by (auto simp: newDonation_def andThen_def orReject_def assign_def Let_def
          split: option.splits list.splits if_splits)
  then show ?thesis
    by (simp add: getDonationStatus_def)
qed

theorem mint_status_waiting_witness:
  "newDonation JStr ex_world ''5'' ''100'' ''0xbb'' True = Inr [DonationsCreate ex_minted] \<and>
   (\<exists>written. ([DonationsCreate ex_minted] = [DonationsCreate written]
                \<or> (\<exists>donationId. [DonationsCreate ex_minted] = [DonationsPatch donationId written]))
           \<and> jsget written ''status'' = JStr ''waiting'') \<and>
   (getDonationStatus ex_pledge_paying ex_giver False True = ''waiting'') =
     (pledgeState ex_pledge_paying \<noteq> ''1'' \<and> pledgeState ex_pledge_paying \<noteq> ''2'' \<and> \<not> False
      \<and> (adminType ex_giver = ''giver'' \<or> True))"
proof -
  have r: "newDonation JStr ex_world ''5'' ''100'' ''0xbb'' True = Inr [DonationsCreate ex_minted]"
    by (simp add: ex_defs run_defs)
  from r mint_status_waiting [OF r] show ?thesis by blast
qed

text \<open>
  C3: the queue should be advanced whatever the outcome of the event. On the code, a rejected
  fetch of block 7 rejects the promise that getBlockTimestamp returned, and when that promise
  is rejected or never settles, processEvent ends (or hangs) before any call: nothing is
  logged and queue.purge is not called for the transaction hash.
\<close>

theorem rejected_timestamp_skips_purge:
  "run [Call 1 7, Settle 7 GetBlockRejected] init_state = Some failed_state \<and>
   settled failed_state = [(7, 1, Rejected)] \<and>
   processEvent h w ev (Some Rejected) retry = ([], Failed (Rejection ''getBlockTimestamp'')) \<and>
   processEvent h w ev None retry = ([], NeverSettles)"
  by (simp add: processEvent_def init_state_def failed_state_def getBlockTimestamp_def
        getBlock_failed_def)

text \<open>
  C5 as stated fails: for a mint whose destination pledge cannot be read, with no donation of
  the event's txHash, the first attempt logs the rejection and purges the queue; the event is
  not scheduled again.
\<close>

theorem mint_unreadable_pledge_counterexample:
  "rv_from ex_mint_unreadable = ''0'' \<and>
   donations_find ex_world ''txHash'' (transactionHash ex_mint_unreadable) = [] \<and>
   getPledge ex_world (rv_to ex_mint_unreadable) = None \<and>
   processEvent JStr ex_world ex_mint_unreadable (Some (Resolved 7000)) False
     = ([LoggerError (Rejection ''getPledge''), QueuePurge ''0xbb''], Finished)"
  by (simp add: processEvent_def newDonation_def andThen_def orReject_def donations_find_def
        ex_mint_unreadable_def ex_world_def ex_donation_def)

text \<open>
  C5, amended: for a mint Transfer event (from == '0') whose block timestamp resolves and whose
  destination pledge and owning admin can be read: if no donation has the event's txHash, the
  first attempt only schedules the event again after 5000 ms (no donation is created, the
  queue is not purged) and the retried attempt creates a donation with the event's txHash,
  pledge id and amount; if a donation with the txHash exists, its first match is patched
  instead, on either attempt.
\<close>

theorem mint_reschedule_then_create:
  assumes "rv_from ev = ''0''"
    and "getPledge w (rv_to ev) = Some pledge"
    and "pledgeAdmins w (owner pledge) = Some giver"
  shows "(donations_find w ''txHash'' (transactionHash ev) = [] \<longrightarrow>
       processEvent h w ev (Some (Resolved ts)) False = ([SetTimeout 5000 True], Finished) \<and>
       (\<exists>created.
          processEvent h w ev (Some (Resolved ts)) True
            = ([DonationsCreate created, QueuePurge (transactionHash ev)], Finished) \<and>
          jsget created ''txHash'' = JStr (transactionHash ev) \<and>
          jsget created ''pledgeId'' = JStr (rv_to ev) \<and>
          jsget created ''amount'' = JStr (rv_amount ev))) \<and>
     (\<forall>d rest. donations_find w ''txHash'' (transactionHash ev) = d # rest \<longrightarrow>
       (\<exists>mutation.
          processEvent h w ev (Some (Resolved ts)) retry
            = ([DonationsPatch (jsget d ''_id'') mutation, QueuePurge (transactionHash ev)],
               Finished) \<and>
          jsget mutation ''pledgeId'' = JStr (rv_to ev) \<and>
          jsget mutation ''amount'' = JStr (rv_amount ev)))"
  using assms
  by (auto simp: processEvent_def newDonation_def andThen_def orReject_def
        assign_def Let_def)

lemma toBN_100: "toBN ''100'' = Some 100"
  by (simp add: toBN_def decimal_def is_digit_def)

lemma toBN_40: "toBN ''40'' = Some 40"
  by (simp add: toBN_def decimal_def is_digit_def)

theorem mint_reschedule_then_create_witness:
  "rv_from (ex_mint ''0xbb'') = ''0'' \<and>
   getPledge ex_world (rv_to (ex_mint ''0xbb'')) = Some ex_pledge_paying \<and>
   pledgeAdmins ex_world (owner ex_pledge_paying) = Some ex_giver \<and>
   donations_find ex_world ''txHash'' ''0xbb'' = [] \<and>
   processEvent JStr ex_world (ex_mint ''0xbb'') (Some (Resolved 7000)) False
     = ([SetTimeout 5000 True], Finished) \<and>
   processEvent JStr ex_world (ex_mint ''0xbb'') (Some (Resolved 7000)) True
     = ([DonationsCreate ex_minted, QueuePurge ''0xbb''], Finished) \<and>
   donations_find ex_world ''txHash'' ''0xaa'' = [ex_donation] \<and>
   processEvent JStr ex_world (ex_mint ''0xaa'') (Some (Resolved 7000)) False
     = ([DonationsPatch (JStr ''d1'') ex_patch, QueuePurge ''0xaa''], Finished)"
proof -
  have a: "rv_from (ex_mint tx) = ''0''" for tx by (simp add: ex_mint_def)
  have b: "getPledge ex_world (rv_to (ex_mint tx)) = Some ex_pledge_paying" for tx
    by (simp add: ex_mint_def ex_world_def)
  have c: "pledgeAdmins ex_world (owner ex_pledge_paying) = Some ex_giver"
    by (simp add: ex_world_def ex_pledge_paying_def)
  have d: "donations_find ex_world ''txHash'' ''0xbb'' = []"
    by (simp add: donations_find_def ex_world_def ex_donation_def)
  have e: "donations_find ex_world ''txHash'' ''0xaa'' = [ex_donation]"
    by (simp add: donations_find_def ex_world_def ex_donation_def)
  have tb: "transactionHash (ex_mint tx) = tx" for tx by (simp add: ex_mint_def)
  from mint_reschedule_then_create
         [OF a [of "''0xbb''"] b [of "''0xbb''"] c, where h = JStr and ts = 7000 and retry = False]
       mint_reschedule_then_create
         [OF a [of "''0xaa''"] b [of "''0xaa''"] c, where h = JStr and ts = 7000 and retry = False]
  show ?thesis
    by (simp add: a b c d e tb)
       (simp add: processEvent_def run_defs ex_defs ex_patch_def)
qed

theorem split_conserves_amount_witness:
  "jsget (ti_donation ex_transfer) ''amount'' = JStr ''100'' \<and>
   toBN ''100'' = Some 100 \<and> toBN (ti_amount ex_transfer) = Some 40 \<and> (40::int) < 100 \<and>
   (\<exists>status remaining created.
     filter donations_call (fst (u_doTransfer JStr (JStr ''d2'') ex_transfer)) =
       [DonationsPatch (jsget (ti_donation ex_transfer) ''_id'')
          [(''status'', JStr status), (''amount'', JStr remaining)],
        DonationsCreate created] \<and>
     snd (u_doTransfer JStr (JStr ''d2'') ex_transfer) = None \<and>
     toBN remaining = Some (100 - 40) \<and>
     jsget created ''amount'' = JStr (ti_amount ex_transfer) \<and>
     (\<exists>a c. toBN remaining = Some a \<and> toBN (ti_amount ex_transfer) = Some c \<and> a + c = 100))"
proof -
  have a: "jsget (ti_donation ex_transfer) ''amount'' = JStr ''100''"
    by (simp add: ex_transfer_def ex_donation_def)
  have b: "toBN (ti_amount ex_transfer) = Some 40"
    by (simp add: ex_transfer_def toBN_40)
  have c: "(40::int) < 100" by simp
  from a b c toBN_100 split_conserves_amount [OF a toBN_100 b c, of JStr "JStr ''d2''"]
  show ?thesis by blast
qed

theorem paying_sets_and_unsets_delegate_witness:
  "pledgeState (ti_toPledge ex_transfer) = ''1'' \<and>
   ti_delegate ex_transfer = Some ex_dac \<and>
   truthy (jsget (ti_donation ex_transfer) ''delegate'') \<and>
   map_of (fst (createDonationMutation JStr ex_transfer)) ''delegate'' = Some (JNum 2) \<and>
   map_of (fst (createDonationMutation JStr ex_transfer)) ''delegateId'' = Some (JStr ''dac-1'') \<and>
   map_of (fst (createDonationMutation JStr ex_transfer)) ''$unset'' =
      Some (JObj [(''delegate'', JBool True), (''delegateId'', JBool True),
                  (''delegateType'', JBool True)])"
proof -
  have a: "pledgeState (ti_toPledge ex_transfer) = ''1''"
    by (simp add: ex_transfer_def ex_pledge_paying_def)
  have b: "ti_delegate ex_transfer = Some ex_dac"
    by (simp add: ex_transfer_def)
  have c: "truthy (jsget (ti_donation ex_transfer) ''delegate'')"
    by (simp add: ex_transfer_def ex_donation_def)
  from a b c paying_sets_and_unsets_delegate [OF a b c, of JStr]
  show ?thesis by (simp add: ex_dac_def)
qed

lemma find_filter_conv:
  "List.find P xs = (case filter P xs of [] \<Rightarrow> None | x # _ \<Rightarrow> Some x)"
  by (induction xs) auto

lemma arrival_order_set: "set (arrival_order order) = {0..<5}"
  by (auto simp: arrival_order_def Let_def)

lemma arrival_order_distinct: "distinct (arrival_order order)"
  by (auto simp: arrival_order_def Let_def)

lemma settle_all_single:
  assumes "distinct is" and "lookups ! k = (logs, Some e)"
    and "\<forall>i\<in>set is. i \<noteq> k \<longrightarrow> lookups ! i = ([], None)"
  shows "settle_all is lookups rejected =
     (if k \<in> set is then logs @ (if rejected then [] else [LoggerError e]) else [])"
  using assms
proof (induction "is" arbitrary: rejected)
  case Nil
  show ?case by simp
next
  case (Cons i rest)
  show ?case
  proof (cases "i = k")
    case True
    with Cons.prems have "k \<notin> set rest" by simp
    with Cons True show ?thesis by simp
  next
    case False
    with Cons show ?thesis by simp
  qed
qed

lemma settle_all_no_donations:
  assumes "\<forall>r\<in>set lookups. filter donations_call (fst r) = []"
    and "\<forall>i\<in>set is. i < length lookups"
  shows "filter donations_call (settle_all is lookups rejected) = []"
  using assms(2)
proof (induction "is" arbitrary: rejected)
  case Nil
  show ?case by simp
next
  case (Cons i rest)
  then have "lookups ! i \<in> set lookups" by simp
  with assms(1) have "filter donations_call (fst (lookups ! i)) = []" by blast
  with Cons show ?case
    by (cases "lookups ! i") (auto split: option.splits)
qed

lemma settle_all_logs_rejection:
  "k \<in> set is \<Longrightarrow> lookups ! k = (logs, Some e) \<Longrightarrow>
     \<exists>e'. LoggerError e' \<in> set (settle_all is lookups False)"
proof (induction "is")
  case Nil
  then show ?case by simp
next
  case (Cons i rest)
  obtain l r where lr: "lookups ! i = (l, r)" by (cases "lookups ! i")
  show ?case
  proof (cases r)
    case None
    with lr Cons.prems have "k \<in> set rest" by auto
    from Cons.IH [OF this Cons.prems(2)] lr None show ?thesis by auto
  next
    case (Some e0)
    with lr show ?thesis by auto
  qed
qed

lemma getDonation_logged: "filter donations_call (fst (getDonation data from to amount ts txHash)) = []"
  by (simp add: getDonation_def Let_def split: list.splits)

lemma transfer_unmatched:
  assumes fp: "getPledge w from = Some fp" and tp: "getPledge w to = Some tp"
    and g: "getDonation (donations_find w ''pledgeId'' from) from to amount ts txHash
              = (logged, Inl e)"
  shows "u_transfer h w from to amount ts txHash =
     settle_all (arrival_order (arrival w))
       [([], rejection (orReject ''pledgeAdmins.get'' (pledgeAdmins w (owner fp)))),
        ([], rejection (orReject ''pledgeAdmins.get'' (pledgeAdmins w (owner tp)))),
        (logged, Some e), ([], rejection (fetchDelegate w to tp)),
        ([], rejection (fetchIntendedProject w tp))] False"
  by (simp add: u_transfer_def fp tp g andThen_def orReject_def rejection_def
        split: option.splits sum.splits)

lemma transfer_unmatched_quiet:
  assumes fp: "getPledge w from = Some fp" and tp: "getPledge w to = Some tp"
    and g: "getDonation (donations_find w ''pledgeId'' from) from to amount ts txHash
              = (logged, Inl e)"
  shows "filter donations_call (u_transfer h w from to amount ts txHash) = []"
    and "\<exists>e'. LoggerError e' \<in> set (u_transfer h w from to amount ts txHash)"
proof -
  let ?lookups = "[([], rejection (orReject ''pledgeAdmins.get'' (pledgeAdmins w (owner fp)))),
        ([], rejection (orReject ''pledgeAdmins.get'' (pledgeAdmins w (owner tp)))),
        (logged, Some e), ([], rejection (fetchDelegate w to tp)),
        ([], rejection (fetchIntendedProject w tp))]"
  have l: "filter donations_call logged = []"
    using getDonation_logged [of "donations_find w ''pledgeId'' from" "from" "to" amount ts txHash]
    by (simp add: g)
  have a: "\<forall>r\<in>set ?lookups. filter donations_call (fst r) = []"
    by (simp add: l)
  have b: "\<forall>i\<in>set (arrival_order (arrival w)). i < length ?lookups"
    by (simp add: arrival_order_set)
  show "filter donations_call (u_transfer h w from to amount ts txHash) = []"
    by (simp only: transfer_unmatched [OF fp tp g] settle_all_no_donations [OF a b])
  have "2 \<in> set (arrival_order (arrival w))" by (simp add: arrival_order_set)
  moreover have "?lookups ! 2 = (logged, Some e)" by simp
  ultimately show "\<exists>e'. LoggerError e' \<in> set (u_transfer h w from to amount ts txHash)"
    by (simp only: transfer_unmatched [OF fp tp g]) (rule settle_all_logs_rejection)
qed

text \<open>
  C7, amended: the donation to mutate is located by this cascade over the donations found for
  the source pledge id: if exactly one candidate exists it is chosen; otherwise if exactly one
  candidate has the event's txHash it is chosen; otherwise the first candidate whose amount
  equals the transferred amount is chosen; otherwise, when there is at least one candidate, an
  error with the full context (from, to, amount, ts, txHash, candidates) is raised. Then
  _transfer touches no donation and logs an error, in whatever order its lookups are answered;
  the error logged is the one with the context when the other lookups of the event (both
  owning admins, the delegate, the intended project) are answered.
\<close>

theorem getDonation_cascade:
  "(\<forall>d. data = [d] \<longrightarrow> snd (getDonation data from to amount ts txHash) = Inr d) \<and>
   (\<forall>d. length data \<noteq> 1 \<and>
        filter (\<lambda>x. jsget x ''txHash'' = JStr txHash) data = [d] \<longrightarrow>
        snd (getDonation data from to amount ts txHash) = Inr d) \<and>
   (\<forall>d. length data \<noteq> 1 \<and>
        length (filter (\<lambda>x. jsget x ''txHash'' = JStr txHash) data) \<noteq> 1 \<and>
        List.find (\<lambda>x. jsget x ''amount'' = JStr amount) data = Some d \<longrightarrow>
        snd (getDonation data from to amount ts txHash) = Inr d) \<and>
   (length data \<noteq> 1 \<and>
    length (filter (\<lambda>x. jsget x ''txHash'' = JStr txHash) data) \<noteq> 1 \<and>
    List.find (\<lambda>x. jsget x ''amount'' = JStr amount) data = None \<and> data \<noteq> [] \<longrightarrow>
    snd (getDonation data from to amount ts txHash)
      = Inl (UnableToDetermine from to amount ts txHash data)) \<and>
   (\<forall>fp tp.
      getPledge w from = Some fp \<and> getPledge w to = Some tp \<and>
      snd (getDonation (donations_find w ''pledgeId'' from) from to amount ts txHash)
        = Inl (UnableToDetermine from to amount ts txHash (donations_find w ''pledgeId'' from))
      \<longrightarrow>
      filter donations_call (u_transfer h w from to amount ts txHash) = [] \<and>
      (\<exists>e. LoggerError e \<in> set (u_transfer h w from to amount ts txHash))) \<and>
   (\<forall>fp tp fa ta dl ip.
      getPledge w from = Some fp \<and> getPledge w to = Some tp \<and>
      pledgeAdmins w (owner fp) = Some fa \<and> pledgeAdmins w (owner tp) = Some ta \<and>
      fetchDelegate w to tp = Inr dl \<and> fetchIntendedProject w tp = Inr ip \<and>
      snd (getDonation (donations_find w ''pledgeId'' from) from to amount ts txHash)
        = Inl (UnableToDetermine from to amount ts txHash (donations_find w ''pledgeId'' from))
      \<longrightarrow>
      LoggerError (UnableToDetermine from to amount ts txHash (donations_find w ''pledgeId'' from))
        \<in> set (u_transfer h w from to amount ts txHash))"
proof (intro conjI allI impI)
  fix d assume "data = [d]"
  then show "snd (getDonation data from to amount ts txHash) = Inr d"
    by (simp add: getDonation_def)
next
  fix d
  assume "length data \<noteq> 1 \<and> filter (\<lambda>x. jsget x ''txHash'' = JStr txHash) data = [d]"
  then show "snd (getDonation data from to amount ts txHash) = Inr d"
    by (simp add: getDonation_def Let_def)
next
  fix d
  assume a: "length data \<noteq> 1 \<and>
        length (filter (\<lambda>x. jsget x ''txHash'' = JStr txHash) data) \<noteq> 1 \<and>
        List.find (\<lambda>x. jsget x ''amount'' = JStr amount) data = Some d"
  then obtain rest where "filter (\<lambda>x. jsget x ''amount'' = JStr amount) data = d # rest"
    by (auto simp: find_filter_conv split: list.splits)
  with a show "snd (getDonation data from to amount ts txHash) = Inr d"
    by (simp add: getDonation_def Let_def)
next
  assume a: "length data \<noteq> 1 \<and>
    length (filter (\<lambda>x. jsget x ''txHash'' = JStr txHash) data) \<noteq> 1 \<and>
    List.find (\<lambda>x. jsget x ''amount'' = JStr amount) data = None \<and> data \<noteq> []"
  then have "filter (\<lambda>x. jsget x ''amount'' = JStr amount) data = []"
    by (auto simp: find_filter_conv split: list.splits)
  with a show "snd (getDonation data from to amount ts txHash)
      = Inl (UnableToDetermine from to amount ts txHash data)"
    by (cases data) (simp_all add: getDonation_def Let_def)
next
  fix fp tp
  assume a: "getPledge w from = Some fp \<and> getPledge w to = Some tp \<and>
      snd (getDonation (donations_find w ''pledgeId'' from) from to amount ts txHash)
        = Inl (UnableToDetermine from to amount ts txHash (donations_find w ''pledgeId'' from))"
  then obtain logged where g:
    "getDonation (donations_find w ''pledgeId'' from) from to amount ts txHash
       = (logged, Inl (UnableToDetermine from to amount ts txHash
                         (donations_find w ''pledgeId'' from)))"
    by (cases "getDonation (donations_find w ''pledgeId'' from) from to amount ts txHash") simp
  from a have fp: "getPledge w from = Some fp" and tp: "getPledge w to = Some tp"
    by simp_all
  show "filter donations_call (u_transfer h w from to amount ts txHash) = []"
    by (rule transfer_unmatched_quiet(1) [OF fp tp g])
  show "\<exists>e. LoggerError e \<in> set (u_transfer h w from to amount ts txHash)"
    by (rule transfer_unmatched_quiet(2) [OF fp tp g])
next
  fix fp tp fa ta dl ip
  assume a: "getPledge w from = Some fp \<and> getPledge w to = Some tp \<and>
      pledgeAdmins w (owner fp) = Some fa \<and> pledgeAdmins w (owner tp) = Some ta \<and>
      fetchDelegate w to tp = Inr dl \<and> fetchIntendedProject w tp = Inr ip \<and>
      snd (getDonation (donations_find w ''pledgeId'' from) from to amount ts txHash)
        = Inl (UnableToDetermine from to amount ts txHash (donations_find w ''pledgeId'' from))"
  let ?e = "UnableToDetermine from to amount ts txHash (donations_find w ''pledgeId'' from)"
  from a obtain logged where g:
    "getDonation (donations_find w ''pledgeId'' from) from to amount ts txHash
       = (logged, Inl ?e)"
    by (cases "getDonation (donations_find w ''pledgeId'' from) from to amount ts txHash") simp
  from a have fp: "getPledge w from = Some fp" and tp: "getPledge w to = Some tp"
    by simp_all
  let ?lookups = "[([], None), ([], None), (logged, Some ?e), ([], None), ([], None)]"
  have u: "u_transfer h w from to amount ts txHash
             = settle_all (arrival_order (arrival w)) ?lookups False"
    using a by (simp add: transfer_unmatched [OF fp tp g] orReject_def rejection_def)
  have others: "\<forall>i\<in>set (arrival_order (arrival w)). i \<noteq> 2 \<longrightarrow> ?lookups ! i = ([], None)"
  proof (intro ballI impI)
    fix i assume "i \<in> set (arrival_order (arrival w))" and "i \<noteq> 2"
    then have "i = 0 \<or> i = 1 \<or> i = 3 \<or> i = 4"
      by (auto simp: arrival_order_set)
    then show "?lookups ! i = ([], None)" by auto
  qed
  have "settle_all (arrival_order (arrival w)) ?lookups False = logged @ [LoggerError ?e]"
    using settle_all_single [OF arrival_order_distinct, of ?lookups 2 logged ?e "arrival w" False]
      others
    by (simp add: arrival_order_set)
  then show "LoggerError ?e \<in> set (u_transfer h w from to amount ts txHash)"
    by (simp add: u)
qed

text \<open>
  C7 as stated fails: with two candidates that both have the event's txHash and whose amounts
  differ from the transferred amount, no candidate is chosen although a candidate matches the
  txHash; the error is raised instead.
\<close>

theorem txHash_match_counterexample:
  "length [ex_donation, ex_twin] \<noteq> 1 \<and>
   ex_donation \<in> set [ex_donation, ex_twin] \<and>
   jsget ex_donation ''txHash'' = JStr ''0xaa'' \<and>
   snd (getDonation [ex_donation, ex_twin] ''3'' ''5'' ''7'' 7000 ''0xaa'')
     = Inl (UnableToDetermine ''3'' ''5'' ''7'' 7000 ''0xaa'' [ex_donation, ex_twin])"
  by (simp add: getDonation_def Let_def ex_donation_def ex_twin_def)

theorem getDonation_cascade_witness:
  "snd (getDonation [ex_donation] ''3'' ''5'' ''100'' 7000 ''0xaa'') = Inr ex_donation \<and>
   length [ex_donation, ex_second] \<noteq> 1 \<and>
   filter (\<lambda>x. jsget x ''txHash'' = JStr ''0xcc'') [ex_donation, ex_second] = [ex_second] \<and>
   snd (getDonation [ex_donation, ex_second] ''3'' ''5'' ''7'' 7000 ''0xcc'') = Inr ex_second \<and>
   length (filter (\<lambda>x. jsget x ''txHash'' = JStr ''0xdd'') [ex_donation, ex_second]) \<noteq> 1 \<and>
   List.find (\<lambda>x. jsget x ''amount'' = JStr ''60'') [ex_donation, ex_second] = Some ex_second \<and>
   snd (getDonation [ex_donation, ex_second] ''3'' ''5'' ''60'' 7000 ''0xdd'') = Inr ex_second \<and>
   List.find (\<lambda>x. jsget x ''amount'' = JStr ''7'') [ex_donation, ex_second] = None \<and>
   snd (getDonation [ex_donation, ex_second] ''3'' ''5'' ''7'' 7000 ''0xdd'')
     = Inl (UnableToDetermine ''3'' ''5'' ''7'' 7000 ''0xdd'' [ex_donation, ex_second]) \<and>
   donations_find ex_world2 ''pledgeId'' ''3'' = [ex_donation, ex_second] \<and>
   getPledge ex_world2 ''3'' = Some ex_pledge_normal \<and>
   getPledge ex_world2 ''5'' = Some ex_pledge_paying \<and>
   pledgeAdmins ex_world2 (owner ex_pledge_normal) = Some ex_giver \<and>
   pledgeAdmins ex_world2 (owner ex_pledge_paying) = Some ex_giver \<and>
   fetchDelegate ex_world2 ''5'' ex_pledge_paying = Inr (Some ex_dac) \<and>
   fetchIntendedProject ex_world2 ex_pledge_paying = Inr None \<and>
   arrival ex_world2 = [4, 2, 0] \<and>
   LoggerError (UnableToDetermine ''3'' ''5'' ''7'' 7000 ''0xdd'' [ex_donation, ex_second])
     \<in> set (u_transfer JStr ex_world2 ''3'' ''5'' ''7'' 7000 ''0xdd'') \<and>
   filter donations_call (u_transfer JStr ex_world2 ''3'' ''5'' ''7'' 7000 ''0xdd'') = []"
proof -
  let ?two = "[ex_donation, ex_second]"
  have l: "length ?two \<noteq> 1" by simp
  have tx_cc: "filter (\<lambda>x. jsget x ''txHash'' = JStr ''0xcc'') ?two = [ex_second]"
    by (simp add: ex_donation_def ex_second_def)
  have tx_dd: "length (filter (\<lambda>x. jsget x ''txHash'' = JStr ''0xdd'') ?two) \<noteq> 1"
    by (simp add: ex_donation_def ex_second_def)
  have am_60: "List.find (\<lambda>x. jsget x ''amount'' = JStr ''60'') ?two = Some ex_second"
    by (simp add: ex_donation_def ex_second_def)
  have am_7: "List.find (\<lambda>x. jsget x ''amount'' = JStr ''7'') ?two = None"
    by (simp add: ex_donation_def ex_second_def)
  have fnd: "donations_find ex_world2 ''pledgeId'' ''3'' = ?two"
    by (simp add: donations_find_def ex_world2_def ex_world_def ex_donation_def ex_second_def)
  have w: "getPledge ex_world2 ''3'' = Some ex_pledge_normal"
      "getPledge ex_world2 ''5'' = Some ex_pledge_paying"
      "pledgeAdmins ex_world2 (owner ex_pledge_normal) = Some ex_giver"
      "pledgeAdmins ex_world2 (owner ex_pledge_paying) = Some ex_giver"
    by (simp_all add: ex_world2_def ex_world_def ex_pledge_normal_def ex_pledge_paying_def)
  have one: "snd (getDonation [ex_donation] ''3'' ''5'' ''100'' 7000 ''0xaa'') = Inr ex_donation"
    using getDonation_cascade [of "[ex_donation]" "''3''" "''5''" "''100''" 7000 "''0xaa''"]
    by blast
  have two: "snd (getDonation ?two ''3'' ''5'' ''7'' 7000 ''0xcc'') = Inr ex_second"
    using getDonation_cascade [of ?two "''3''" "''5''" "''7''" 7000 "''0xcc''"] l tx_cc
    by blast
  have three: "snd (getDonation ?two ''3'' ''5'' ''60'' 7000 ''0xdd'') = Inr ex_second"
    using getDonation_cascade [of ?two "''3''" "''5''" "''60''" 7000 "''0xdd''"] l tx_dd am_60
    by blast
  have four: "snd (getDonation ?two ''3'' ''5'' ''7'' 7000 ''0xdd'')
     = Inl (UnableToDetermine ''3'' ''5'' ''7'' 7000 ''0xdd'' ?two)"
    using getDonation_cascade [of ?two "''3''" "''5''" "''7''" 7000 "''0xdd''"] l tx_dd am_7
    by blast
  have dl: "fetchDelegate ex_world2 ''5'' ex_pledge_paying = Inr (Some ex_dac)"
    by (simp add: fetchDelegate_def gt0_def toNumber_def toBN_def decimal_def is_digit_def
          andThen_def orReject_def ex_world2_def ex_world_def ex_pledge_paying_def)
  have ip: "fetchIntendedProject ex_world2 ex_pledge_paying = Inr None"
    by (simp add: fetchIntendedProject_def gt0_def toNumber_def toBN_def decimal_def
          is_digit_def ex_pledge_paying_def)
  have five: "LoggerError (UnableToDetermine ''3'' ''5'' ''7'' 7000 ''0xdd'' ?two)
       \<in> set (u_transfer JStr ex_world2 ''3'' ''5'' ''7'' 7000 ''0xdd'') \<and>
     filter donations_call (u_transfer JStr ex_world2 ''3'' ''5'' ''7'' 7000 ''0xdd'') = []"
    using getDonation_cascade [of ?two "''3''" "''5''" "''7''" 7000 "''0xdd''" ex_world2 JStr]
      w four fnd dl ip
    by simp
  have ar: "arrival ex_world2 = [4, 2, 0]"
    by (simp add: ex_world2_def ex_world_def)
  from l tx_cc tx_dd am_60 am_7 fnd one two three four five w dl ip ar show ?thesis
    by simp
qed

end
